theory Spec2Isabelle
  imports Main
begin

section \<open>JSON values, JavaScript truthiness and promises\<close>

text \<open>
  The store speaks JSON. An object is a finite map from property names to values; reading
  a property that is not there gives JavaScript's \<open>undefined\<close>, which is \<open>None\<close> here.
  \<open>JSON.stringify\<close> followed by \<open>JSON.parse\<close> is the identity on these values, so a
  request body is the value itself.
\<close>

datatype json =
    JNull
  | JBool bool
  | JNum int
  | JStr string
  | JArr "json list"
  | JObj "string \<Rightarrow> json option"

type_synonym obj = "string \<Rightarrow> json option"

text \<open>\<open>!v\<close> is \<open>\<not> truthy v\<close>: undefined, null, false, 0 and the empty string are falsy.\<close>

fun truthy :: "json option \<Rightarrow> bool" where
  "truthy None = False"
| "truthy (Some JNull) = False"
| "truthy (Some (JBool b)) = b"
| "truthy (Some (JNum n)) = (n \<noteq> 0)"
| "truthy (Some (JStr s)) = (s \<noteq> [])"
| "truthy (Some (JArr xs)) = True"
| "truthy (Some (JObj m)) = True"

text \<open>
  \<open>v.k\<close> on a value that is not null: a property of an object, undefined on the other
  values the store holds. (On null the source raises a TypeError; the functions below
  write that case out where the code can reach it.)
\<close>

fun field :: "json \<Rightarrow> string \<Rightarrow> json option" where
  "field (JObj m) k = m k"
| "field _ k = None"

text \<open>The properties \<open>{...v}\<close> copies: those of an object, none of null.\<close>

fun as_obj :: "json \<Rightarrow> obj" where
  "as_obj (JObj m) = m"
| "as_obj _ = Map.empty"

text \<open>
  \<open>_.filter(xs, p)\<close> and \<open>_.findIndex(xs, p)\<close> of lodash on what the store holds in a
  collection property: an array, or nothing (undefined or null), which lodash reads as
  the empty collection. \<open>findIndex\<close> gives \<open>-1\<close> when nothing matches: \<open>None\<close> here.
\<close>

fun elements :: "json option \<Rightarrow> json list" where
  "elements (Some (JArr xs)) = xs"
| "elements _ = []"

definition lodash_filter :: "json option \<Rightarrow> (json \<Rightarrow> bool) \<Rightarrow> json list" where
  "lodash_filter c p = filter p (elements c)"

fun findIndex_from :: "nat \<Rightarrow> json list \<Rightarrow> (json \<Rightarrow> bool) \<Rightarrow> nat option" where
  "findIndex_from i [] p = None"
| "findIndex_from i (x # xs) p = (if p x then Some i else findIndex_from (Suc i) xs p)"

definition lodash_findIndex :: "json option \<Rightarrow> (json \<Rightarrow> bool) \<Rightarrow> nat option" where
  "lodash_findIndex c p = findIndex_from 0 (elements c) p"

text \<open>\<open>xs[0]\<close>: the first element, undefined on the empty array.\<close>

fun first :: "json list \<Rightarrow> json option" where
  "first [] = None"
| "first (x # xs) = Some x"

text \<open>
  The errors of \<open>constants/error\<close> that the code raises, the TypeError of a property
  read on null, and the failure of a ledger read. A promise resolves, rejects, or never
  settles; \<open>await\<close> on a rejected promise raises, on one that never settles it does not
  return.
\<close>

datatype error =
    NO_AUTH_TOKEN
  | INVALID_AUTH_TOKEN "json option"
  | REQUEST_FAILED string
  | PROFILE_NOT_FOUND string
  | NO_STORE_DATA_FOR_DISPUTE string
  | TypeError
  | LedgerError string

datatype 'a promise = Resolved 'a | Rejected error | Pending

fun pbind :: "'a promise \<Rightarrow> ('a \<Rightarrow> 'b promise) \<Rightarrow> 'b promise" where
  "pbind (Resolved x) f = f x"
| "pbind (Rejected e) f = Rejected e"
| "pbind Pending f = Pending"

section \<open>The store transport: \<open>_makeRequest\<close>\<close>

text \<open>
  What \<open>XMLHttpRequest\<close> does with a request that is sent: \<open>open\<close> or \<open>send\<close> throws,
  or the request completes with a status and a response text. The response text is given
  parsed; a text that does not parse leaves \<open>body = null\<close>, as in the source.
\<close>

datatype xhr = SendThrows string | Response nat json

record response =
  resp_body :: json
  resp_status :: nat

text \<open>
  The \<open>onreadystatechange\<close> callback at \<open>readyState === 4\<close>. On status 401 it rejects
  with \<open>INVALID_AUTH_TOKEN(body.error)\<close>; when the body is null that read raises
  inside the callback and the promise is never settled. Any other status resolves
  with the body and the status (a \<open>resolve\<close> after the \<open>reject\<close> has no effect).
\<close>

fun settle :: "xhr \<Rightarrow> response promise" where
  "settle (SendThrows err) = Rejected (REQUEST_FAILED err)"
| "settle (Response st b) =
     (if st = 401 then
        (if b = JNull then Pending else Rejected (INVALID_AUTH_TOKEN (field b ''error'')))
      else Resolved \<lparr>resp_body = b, resp_status = st\<rparr>)"

text \<open>
  \<open>_makeRequest(verb, uri, body)\<close> with \<open>this._token = tok\<close>. The network is a function
  \<open>net\<close> on a state \<open>s\<close> of the outside world; it is consulted, and the world changes,
  only when the request is sent. Without a token a request that is not a \<open>GET\<close> throws
  before the request object is made; whoever awaits the call sees a rejection. The
  headers set when there is a body do not change what the function returns.
\<close>

definition makeRequest ::
  "json option \<Rightarrow> string \<Rightarrow> 'u \<Rightarrow> json option \<Rightarrow>
   ('s \<Rightarrow> string \<Rightarrow> 'u \<Rightarrow> json option \<Rightarrow> xhr \<times> 's) \<Rightarrow> 's \<Rightarrow> response promise \<times> 's" where
  "makeRequest tok verb uri body net s =
     (if verb \<noteq> ''GET'' \<and> \<not> truthy tok then (Rejected NO_AUTH_TOKEN, s)
      else (case net s verb uri body of (x, s') \<Rightarrow> (settle x, s')))"

text \<open>A network that records every request it is given, and answers with \<open>x\<close>.\<close>

definition logging_net ::
  "xhr \<Rightarrow> (string \<times> 'u \<times> json option) list \<Rightarrow> string \<Rightarrow> 'u \<Rightarrow> json option \<Rightarrow>
   xhr \<times> (string \<times> 'u \<times> json option) list" where
  "logging_net x log verb uri body = (x, log @ [(verb, uri, body)])"

section \<open>The store service\<close>

text \<open>
  Resource paths of the store, keyed by user address and nested by arbitrator and
  dispute: \<open>${storeUri}/${user}\<close>, \<open>${storeUri}/${user}/arbitrators/${arb}/disputes/${id}\<close>
  and \<open>${storeUri}/arbitrators/${arb}/disputes/${id}\<close>.
\<close>

datatype uri =
    UserUri string
  | DisputeProfileUri string string int
  | DisputeUri string int
  | OtherUri string

text \<open>
  The store holds one profile document per user address and one shared record per
  \<open>(arbitratorAddress, disputeId)\<close>.
\<close>

record store =
  profiles :: "string \<Rightarrow> obj option"
  dispute_records :: "string \<times> int \<Rightarrow> obj option"

text \<open>
  The predicate every lookup of a dispute in a profile uses:
  \<open>o.arbitratorAddress === arbitratorAddress && o.disputeId === disputeId\<close>.
\<close>

definition same_dispute :: "string \<Rightarrow> int \<Rightarrow> json \<Rightarrow> bool" where
  "same_dispute a d j \<longleftrightarrow>
     field j ''arbitratorAddress'' = Some (JStr a) \<and> field j ''disputeId'' = Some (JNum d)"

fun upsert :: "(json \<Rightarrow> bool) \<Rightarrow> json \<Rightarrow> json list \<Rightarrow> json list" where
  "upsert p b [] = [b]"
| "upsert p b (x # xs) = (if p x then b # xs else x # upsert p b xs)"

definition profile_json :: "store \<Rightarrow> string \<Rightarrow> json" where
  "profile_json st u = (case profiles st u of None \<Rightarrow> JNull | Some p \<Rightarrow> JObj p)"

definition dispute_json :: "store \<Rightarrow> string \<Rightarrow> int \<Rightarrow> json" where
  "dispute_json st a d = (case dispute_records st (a, d) of None \<Rightarrow> JNull | Some r \<Rightarrow> JObj r)"

text \<open>
  Modelled from the spec: the store service behind the transport is an external
  collaborator, of which the repository holds only the client. The spec gives its
  protocol: a \<open>GET\<close> returns the stored record, the body \<open>null\<close> when there is none; a
  \<open>POST\<close> writes the record it is given, so that subsequent reads observe the new store
  state. A posted dispute profile takes the place of the user's entry for the same
  \<open>(arbitratorAddress, disputeId)\<close>, or is added when there is none.
\<close>

definition store_service :: "store \<Rightarrow> string \<Rightarrow> uri \<Rightarrow> json option \<Rightarrow> xhr \<times> store" where
  "store_service st verb uri body =
     (if verb = ''GET'' then
        (case uri of
           UserUri u \<Rightarrow> (Response 200 (profile_json st u), st)
         | DisputeUri a d \<Rightarrow> (Response 200 (dispute_json st a d), st)
         | _ \<Rightarrow> (Response 404 JNull, st))
      else
        (case (uri, body) of
           (UserUri u, Some b) \<Rightarrow>
             (Response 201 (JArr [b]), st\<lparr>profiles := (profiles st)(u \<mapsto> as_obj b)\<rparr>)
         | (DisputeProfileUri u a d, Some b) \<Rightarrow>
             (let p = (case profiles st u of None \<Rightarrow> Map.empty | Some p \<Rightarrow> p);
                  ds = upsert (same_dispute a d) b (elements (p ''disputes''));
                  p' = p(''disputes'' \<mapsto> JArr ds)
              in (Response 201 (JArr [JObj p']), st\<lparr>profiles := (profiles st)(u \<mapsto> p')\<rparr>))
         | (DisputeUri a d, Some b) \<Rightarrow>
             (Response 201 b,
              st\<lparr>dispute_records := (dispute_records st)((a, d) \<mapsto> as_obj b)\<rparr>)
         | _ \<Rightarrow> (Response 404 JNull, st)))"

section \<open>The store gateway: \<open>StoreProviderWrapper\<close>\<close>

text \<open>
  \<open>queueWriteRequest(getBodyFn, verb, uri)\<close> hands the queue one job:
  \<open>() => getBodyFn().then(result => this._makeRequest(verb, uri, result))\<close>. This is
  what the job does when the queue runs it on the store \<open>st\<close>: the read phase, then the
  request, with nothing between them.
\<close>

definition queueWriteRequest ::
  "(store \<Rightarrow> json promise) \<Rightarrow> string \<Rightarrow> uri \<Rightarrow> json option \<Rightarrow> store \<Rightarrow>
   response promise \<times> store" where
  "queueWriteRequest getBodyFn verb uri tok st =
     (case getBodyFn st of
        Resolved b \<Rightarrow> makeRequest tok verb uri (Some b) store_service st
      | Rejected e \<Rightarrow> (Rejected e, st)
      | Pending \<Rightarrow> (Pending, st))"

text \<open>\<open>queueReadRequest(uri)\<close>: the job is \<open>() => this._makeRequest('GET', uri)\<close>.\<close>

definition queueReadRequest :: "uri \<Rightarrow> json option \<Rightarrow> store \<Rightarrow> response promise \<times> store" where
  "queueReadRequest uri tok st = makeRequest tok ''GET'' uri None store_service st"

definition getUserProfile :: "json option \<Rightarrow> store \<Rightarrow> string \<Rightarrow> json promise" where
  "getUserProfile tok st userAddress =
     pbind (fst (makeRequest tok ''GET'' (UserUri userAddress) None store_service st))
       (\<lambda>httpResponse. Resolved (resp_body httpResponse))"

definition getContractByAddress ::
  "json option \<Rightarrow> store \<Rightarrow> string \<Rightarrow> string \<Rightarrow> json option promise" where
  "getContractByAddress tok st userAddress addressContract =
     pbind (getUserProfile tok st userAddress) (\<lambda>userProfile.
       if \<not> truthy (Some userProfile) then Rejected (PROFILE_NOT_FOUND userAddress)
       else Resolved (first (lodash_filter (field userProfile ''contracts'')
              (\<lambda>contract. field contract ''address'' = Some (JStr addressContract)))))"

definition getDisputeDataForUser ::
  "json option \<Rightarrow> store \<Rightarrow> string \<Rightarrow> string \<Rightarrow> int \<Rightarrow> json option promise" where
  "getDisputeDataForUser tok st userAddress arbitratorAddress disputeId =
     pbind (getUserProfile tok st userAddress) (\<lambda>userProfile.
       if \<not> truthy (Some userProfile) then Rejected (PROFILE_NOT_FOUND userAddress)
       else Resolved (first (lodash_filter (field userProfile ''disputes'')
              (same_dispute arbitratorAddress disputeId))))"

definition getDisputes :: "json option \<Rightarrow> store \<Rightarrow> string \<Rightarrow> json option promise" where
  "getDisputes tok st userAddress =
     pbind (getUserProfile tok st userAddress) (\<lambda>userProfile.
       if \<not> truthy (Some userProfile) then Resolved (Some (JArr []))
       else Resolved (field userProfile ''disputes''))"

text \<open>
  The read phase of \<open>updateUserProfile\<close>: the current profile or \<open>{}\<close>, without \<open>_id\<close>
  and \<open>created_at\<close>, under the supplied fields with \<open>address\<close> set.
\<close>

definition updateUserProfile_getBodyFn ::
  "json option \<Rightarrow> string \<Rightarrow> obj \<Rightarrow> store \<Rightarrow> json promise" where
  "updateUserProfile_getBodyFn tok userAddress params st =
     pbind (getUserProfile tok st userAddress) (\<lambda>p.
       let currentProfile = (if truthy (Some p) then as_obj p else Map.empty);
           currentProfile = currentProfile(''_id'' := None, ''created_at'' := None);
           params = params(''address'' \<mapsto> JStr userAddress)
       in Resolved (JObj (currentProfile ++ params)))"

definition updateUserProfile ::
  "json option \<Rightarrow> string \<Rightarrow> obj \<Rightarrow> store \<Rightarrow> response promise \<times> store" where
  "updateUserProfile tok userAddress params st =
     queueWriteRequest (updateUserProfile_getBodyFn tok userAddress params)
       ''POST'' (UserUri userAddress) tok st"

text \<open>
  The read phase of \<open>updateDisputeProfile\<close>. \<open>userProfile.disputes\<close> raises a TypeError
  when there is no profile; the current entry is the first that matches, or \<open>{}\<close>.
\<close>

definition updateDisputeProfile_getBodyFn ::
  "json option \<Rightarrow> string \<Rightarrow> string \<Rightarrow> int \<Rightarrow> obj \<Rightarrow> store \<Rightarrow> json promise" where
  "updateDisputeProfile_getBodyFn tok userAddress arbitratorAddress disputeId params st =
     pbind (getUserProfile tok st userAddress) (\<lambda>userProfile.
       if userProfile = JNull then Rejected TypeError
       else
         let found = first (lodash_filter (field userProfile ''disputes'')
                       (same_dispute arbitratorAddress disputeId));
             currentDisputeProfile =
               (case found of None \<Rightarrow> Map.empty
                | Some x \<Rightarrow> if truthy (Some x) then as_obj x else Map.empty);
             currentDisputeProfile = currentDisputeProfile(''_id'' := None);
             params = params(''disputeId'' \<mapsto> JNum disputeId,
                             ''arbitratorAddress'' \<mapsto> JStr arbitratorAddress)
         in Resolved (JObj (currentDisputeProfile ++ params)))"

definition updateDisputeProfile ::
  "json option \<Rightarrow> string \<Rightarrow> string \<Rightarrow> int \<Rightarrow> obj \<Rightarrow> store \<Rightarrow> response promise \<times> store" where
  "updateDisputeProfile tok userAddress arbitratorAddress disputeId params st =
     queueWriteRequest
       (updateDisputeProfile_getBodyFn tok userAddress arbitratorAddress disputeId params)
       ''POST'' (DisputeProfileUri userAddress arbitratorAddress disputeId) tok st"

text \<open>
  \<open>setUpUserProfile\<close>: when there is no profile, the write of an empty update is queued
  (its promise is dropped) and then a read, whose result, the whole HTTP response
  \<open>{body, status}\<close> and not its body, is what is returned.
\<close>

definition response_json :: "response \<Rightarrow> json" where
  "response_json r = JObj [''body'' \<mapsto> resp_body r, ''status'' \<mapsto> JNum (int (resp_status r))]"

definition setUpUserProfile :: "json option \<Rightarrow> string \<Rightarrow> store \<Rightarrow> json promise \<times> store" where
  "setUpUserProfile tok userAddress st =
     (case getUserProfile tok st userAddress of
        Resolved userProfile \<Rightarrow>
          if userProfile = JNull then
            (let (w, st1) = updateUserProfile tok userAddress Map.empty st;
                 (r, st2) = queueReadRequest (UserUri userAddress) tok st1
             in (pbind r (\<lambda>h. Resolved (response_json h)), st2))
          else (Resolved userProfile, st)
      | Rejected e \<Rightarrow> (Rejected e, st)
      | Pending \<Rightarrow> (Pending, st))"

text \<open>
  Four methods of the store gateway are called by the reconciliation engine but are not
  among the sources: \<open>getDispute\<close>, \<open>updateDispute\<close>, \<open>getDisputesForUser\<close> and
  \<open>getDisputeData\<close>.
\<close>

text \<open>
  Modelled from the spec: \<open>getDispute(arbitratorAddress, disputeId)\<close> is missing. The
  spec: the store is checked for an existing record keyed by \<open>(arbitratorAddress,
  disputeId)\<close>. Here: the body of the \<open>GET\<close> of that record, null when there is none.
\<close>

definition store_getDispute :: "json option \<Rightarrow> store \<Rightarrow> string \<Rightarrow> int \<Rightarrow> json promise" where
  "store_getDispute tok st arbitratorAddress disputeId =
     pbind (fst (makeRequest tok ''GET'' (DisputeUri arbitratorAddress disputeId) None
                   store_service st))
       (\<lambda>httpResponse. Resolved (resp_body httpResponse))"

text \<open>
  Modelled from the spec: \<open>updateDispute(arbitratorAddress, disputeId, params)\<close> is
  missing. The spec: every update fetches the current record (or treats absence as the
  empty object), shallow-merges the supplied partial fields over it, supplied fields
  winning, and writes the merged record; writes go through the queue.
\<close>

definition store_updateDispute_getBodyFn ::
  "json option \<Rightarrow> string \<Rightarrow> int \<Rightarrow> obj \<Rightarrow> store \<Rightarrow> json promise" where
  "store_updateDispute_getBodyFn tok arbitratorAddress disputeId params st =
     pbind (store_getDispute tok st arbitratorAddress disputeId) (\<lambda>current.
       Resolved (JObj ((if truthy (Some current) then as_obj current else Map.empty) ++ params)))"

definition store_updateDispute ::
  "json option \<Rightarrow> string \<Rightarrow> int \<Rightarrow> obj \<Rightarrow> store \<Rightarrow> response promise \<times> store" where
  "store_updateDispute tok arbitratorAddress disputeId params st =
     queueWriteRequest (store_updateDispute_getBodyFn tok arbitratorAddress disputeId params)
       ''POST'' (DisputeUri arbitratorAddress disputeId) tok st"

text \<open>
  Modelled from the spec: \<open>getDisputesForUser(account)\<close> is missing. The spec:
  \<open>listDisputesForUser(address)\<close>, the list-disputes read, which is \<open>getDisputes\<close> of
  the sources.
\<close>

definition getDisputesForUser :: "json option \<Rightarrow> store \<Rightarrow> string \<Rightarrow> json option promise" where
  "getDisputesForUser tok st account = getDisputes tok st account"

text \<open>
  Modelled from the spec: \<open>getDisputeData(arbitratorAddress, disputeId, account)\<close> is
  missing. The spec: the store's per-user dispute data for \<open>(arbitratorAddress,
  disputeId, account)\<close>; not-found (\<open>ProfileNotFound\<close>, \<open>DisputeNotFound\<close>) when the
  store has no cached data; the per-appeal-round store fields are mirrored into the
  merged view, next to the fields of the user's dispute profile. Here: the shared
  record of the dispute under the user's dispute profile; not found when the user has
  no profile, or no dispute profile for the dispute.
\<close>

definition getDisputeData ::
  "json option \<Rightarrow> store \<Rightarrow> string \<Rightarrow> int \<Rightarrow> string \<Rightarrow> json promise" where
  "getDisputeData tok st arbitratorAddress disputeId account =
     pbind (getUserProfile tok st account) (\<lambda>userProfile.
       if \<not> truthy (Some userProfile) then Rejected (PROFILE_NOT_FOUND account)
       else
         (case first (lodash_filter (field userProfile ''disputes'')
                        (same_dispute arbitratorAddress disputeId)) of
            None \<Rightarrow> Rejected (NO_STORE_DATA_FOR_DISPUTE account)
          | Some disputeProfile \<Rightarrow>
              pbind (store_getDispute tok st arbitratorAddress disputeId) (\<lambda>shared.
                Resolved (JObj (as_obj shared ++ as_obj disputeProfile)))))"

section \<open>JavaScript arrays\<close>

text \<open>
  \<open>xs[i]\<close> is undefined past the end. \<open>xs[i] = v\<close> past the end extends the array; the
  slots it skips are holes, which \<open>JSON.stringify\<close> writes as \<open>null\<close>, and nothing reads
  them before the array is serialised.
\<close>

definition array_get :: "json list \<Rightarrow> nat \<Rightarrow> json option" where
  "array_get xs i = (if i < length xs then Some (xs ! i) else None)"

definition array_set :: "json list \<Rightarrow> nat \<Rightarrow> json \<Rightarrow> json list" where
  "array_set xs i v =
     (if i < length xs then xs[i := v] else xs @ replicate (i - length xs) JNull @ [v])"

section \<open>JavaScript numbers\<close>

text \<open>
  A JavaScript number is a double. The numbers the handlers compute with are whole:
  \<open>JNum n\<close> is the double of value \<open>n\<close>, and a value of magnitude \<open>2 ^ 1024\<close> or more
  stands for an infinity. A whole number of magnitude below \<open>2 ^ 53\<close> is a double; a
  larger one is rounded to 53 significant bits, to the nearest double and, half way
  between two, to the one with the even significand. \<open>bit_length n\<close> is the number of
  binary digits of \<open>n\<close>.
\<close>

fun bit_length :: "nat \<Rightarrow> nat" where
  "bit_length n = (if n = 0 then 0 else Suc (bit_length (n div 2)))"

declare bit_length.simps [simp del]

definition round_double :: "int \<Rightarrow> int" where
  "round_double s =
     (let a = nat \<bar>s\<bar>; e = bit_length a - 53 in
      if e = 0 then s
      else
        let q = a div 2 ^ e; r = a mod 2 ^ e; half = 2 ^ (e - 1);
            q' = (if half < r \<or> (r = half \<and> odd q) then q + 1 else q)
        in sgn s * int (q' * 2 ^ e))"

text \<open>
  \<open>toNumber()\<close> of a \<open>BigNumber\<close> gives the nearest double; \<open>x + y\<close> and \<open>x * y\<close> on two
  doubles give the double nearest to the sum and to the product; \<open>JSON.stringify\<close>
  writes an infinity as \<open>null\<close>.
\<close>

definition toNumber :: "int \<Rightarrow> int" where
  "toNumber n = round_double n"

definition js_add :: "int \<Rightarrow> int \<Rightarrow> int" where
  "js_add x y = round_double (x + y)"

definition js_mul :: "int \<Rightarrow> int \<Rightarrow> int" where
  "js_mul x y = round_double (x * y)"

definition js_number :: "int \<Rightarrow> json" where
  "js_number n = (if \<bar>n\<bar> < 2 ^ 1024 then JNum n else JNull)"

section \<open>The ledger and the arbitrable contract\<close>

text \<open>
  The dispute record of the ledger, and the getters of the arbitrator and arbitrable
  instances the engine calls. Each read is a promise. \<open>getBlock\<close> gives the \<open>timestamp\<close>
  of the block, the one property read of it. \<open>setContractInstance(address)\<close> followed by
  \<open>getData()\<close> is \<open>getData address\<close>.
\<close>

record dispute =
  arbitrableContractAddress :: string
  firstSession :: nat
  numberOfAppeals :: nat
  state :: nat
  status :: nat
  arbitrationFeePerJuror :: nat
  voteCounters :: "json list"

record contract_data =
  partyA :: string
  partyB :: string
  contract_status :: nat

record arbitrator =
  getContractAddress :: string
  getDispute :: "int \<Rightarrow> dispute promise"
  getPeriod :: "nat promise"
  getSession :: "nat promise"
  currentRulingForDispute :: "int \<Rightarrow> nat \<Rightarrow> int promise"
  canRuleDispute :: "int \<Rightarrow> json list \<Rightarrow> string \<Rightarrow> bool promise"
  getBlock :: "nat \<Rightarrow> nat promise"
  getOpenDisputesForSession :: "int list promise"
  getDeadlineForOpenDispute :: "int promise"

record arbitrable =
  getData :: "string \<Rightarrow> contract_data promise"
  getEvidenceForArbitrableContract :: "string \<Rightarrow> json list promise"

text \<open>
  The values of \<open>constants/arbitrator\<close> (\<open>PERIOD\<close>) and \<open>constants/dispute\<close> (\<open>STATE\<close>)
  are not among the sources: they are parameters.
\<close>

record constants =
  PERIOD_VOTE :: nat
  PERIOD_APPEAL :: nat
  PERIOD_EXECUTE :: nat
  STATE_OPEN :: nat
  STATE_EXECUTABLE :: nat

section \<open>The reconciliation engine: \<open>getDataForDispute\<close>\<close>

record appeal_juror =
  createdAt :: "json option"
  fee :: nat
  draws :: "json list"
  canRule :: "bool option"

record appeal_ruling =
  voteCounter :: "json option"
  deadline :: "json option"
  ruledAt :: "json option"
  ruling :: int
  canRepartition :: bool
  canExecute :: bool

record dispute_view =
  v_arbitrableContractAddress :: string
  v_arbitrableContractStatus :: nat
  v_arbitratorAddress :: string
  v_partyA :: string
  v_partyB :: string
  v_disputeId :: int
  v_firstSession :: nat
  v_lastSession :: nat
  v_numberOfAppeals :: nat
  v_disputeState :: nat
  v_disputeStatus :: nat
  v_appealJuror :: "appeal_juror list"
  v_appealRulings :: "appeal_ruling list"
  v_description :: "json option"
  v_email :: "json option"
  v_evidence :: "json list"
  v_netPNK :: json
  v_appealCreatedAt :: "json list"
  v_appealDeadlines :: "json list"
  v_appealRuledAt :: "json list"

text \<open>
  The store-derived variables of \<open>getDataForDispute\<close>, with the values they are
  declared with, and the assignments of the \<open>try\<close> block:
  \<open>if (userData.k) k = userData.k\<close>. The per-round fields are arrays in the store.
\<close>

record store_fields =
  appealDraws :: "json list"
  appealCreatedAt :: "json list"
  appealDeadlines :: "json list"
  appealRuledAt :: "json list"
  netPNK :: json

definition initial_store_fields :: store_fields where
  "initial_store_fields =
     \<lparr>appealDraws = [], appealCreatedAt = [], appealDeadlines = [], appealRuledAt = [],
      netPNK = JNum 0\<rparr>"

definition read_store_fields :: "json \<Rightarrow> store_fields" where
  "read_store_fields userData =
     \<lparr>appealDraws = elements (field userData ''appealDraws''),
      appealCreatedAt = elements (field userData ''appealCreatedAt''),
      appealDeadlines = elements (field userData ''appealDeadlines''),
      appealRuledAt = elements (field userData ''appealRuledAt''),
      netPNK = (if truthy (field userData ''netPNK'') then the (field userData ''netPNK'')
                else JNum 0)\<rparr>"

text \<open>The \<open>try { ... } catch (err) {}\<close> around the read of the per-user dispute data.\<close>

fun try_store_fields :: "json promise \<Rightarrow> store_fields promise" where
  "try_store_fields (Resolved userData) = Resolved (read_store_fields userData)"
| "try_store_fields (Rejected err) = Resolved initial_store_fields"
| "try_store_fields Pending = Pending"

text \<open>
  \<open>appealDraws[appeal] || []\<close>: the draws the store holds for a round, an array when
  there are any.
\<close>

definition round_draws :: "store_fields \<Rightarrow> nat \<Rightarrow> json list" where
  "round_draws sf appeal =
     (case array_get (appealDraws sf) appeal of Some (JArr ds) \<Rightarrow> ds | _ \<Rightarrow> [])"

text \<open>
  \<open>rulingPromises\<close> holds the ruling read and, for the last round with known draws,
  the can-rule read; \<open>[ruling, canRule] = await Promise.all(rulingPromises)\<close> leaves
  \<open>canRule\<close> undefined when only the ruling was read.
\<close>

definition canRule_read ::
  "arbitrator \<Rightarrow> bool \<Rightarrow> json list \<Rightarrow> int \<Rightarrow> string \<Rightarrow> bool option promise" where
  "canRule_read A isLastAppeal known_draws disputeId account =
     (if isLastAppeal \<and> length known_draws > 0
      then pbind (canRuleDispute A disputeId known_draws account) (\<lambda>b. Resolved (Some b))
      else Resolved None)"

text \<open>One pass of the loop body, for the round \<open>appeal\<close>.\<close>

definition appeal_round ::
  "constants \<Rightarrow> arbitrator \<Rightarrow> dispute \<Rightarrow> nat \<Rightarrow> nat \<Rightarrow> store_fields \<Rightarrow> int \<Rightarrow> string \<Rightarrow> nat \<Rightarrow>
   (appeal_juror \<times> appeal_ruling) promise" where
  "appeal_round K A dispute period session sf disputeId account appeal =
     (let lastSession = firstSession dispute + numberOfAppeals dispute;
          isLastAppeal = (firstSession dispute + appeal = lastSession);
          draws = round_draws sf appeal;
          canRepartition =
            (if isLastAppeal \<and> session \<noteq> 0 \<and> period \<noteq> 0
             then lastSession \<le> session \<and> period = PERIOD_EXECUTE K
                  \<and> state dispute = STATE_OPEN K
             else False);
          canExecute = (if isLastAppeal then state dispute = STATE_EXECUTABLE K else False)
      in pbind (currentRulingForDispute A disputeId appeal) (\<lambda>ruling.
         pbind (canRule_read A isLastAppeal draws disputeId account) (\<lambda>canRule.
           Resolved
             (\<lparr>createdAt = array_get (appealCreatedAt sf) appeal,
               fee = nat (js_mul (int (arbitrationFeePerJuror dispute)) (int (length draws))),
               draws = draws,
               canRule = canRule\<rparr>,
              \<lparr>voteCounter = array_get (voteCounters dispute) appeal,
               deadline = array_get (appealDeadlines sf) appeal,
               ruledAt = array_get (appealRuledAt sf) appeal,
               ruling = ruling,
               canRepartition = canRepartition,
               canExecute = canExecute\<rparr>))))"

text \<open>
  \<open>for (let appeal = 0; appeal <= dispute.numberOfAppeals; appeal++)\<close>. The arrays
  \<open>appealJuror\<close> and \<open>appealRulings\<close> have \<open>appeal\<close> entries when round \<open>appeal\<close>
  starts, so \<open>appealJuror[appeal] = ...\<close> appends.
\<close>

function appeal_loop ::
  "(nat \<Rightarrow> (appeal_juror \<times> appeal_ruling) promise) \<Rightarrow> nat \<Rightarrow> nat \<Rightarrow>
   appeal_juror list \<times> appeal_ruling list \<Rightarrow> (appeal_juror list \<times> appeal_ruling list) promise"
  where
  "appeal_loop body n appeal acc =
     (if appeal \<le> n then
        (case body appeal of
           Resolved jr \<Rightarrow>
             appeal_loop body n (Suc appeal) (fst acc @ [fst jr], snd acc @ [snd jr])
         | Rejected e \<Rightarrow> Rejected e
         | Pending \<Rightarrow> Pending)
      else Resolved acc)"
  by pat_completeness auto
termination
  by (relation "measure (\<lambda>(body, n, appeal, acc). Suc n - appeal)") auto

declare appeal_loop.simps [simp del]

definition getDataForDispute ::
  "constants \<Rightarrow> arbitrator \<Rightarrow> arbitrable \<Rightarrow> json option \<Rightarrow> store \<Rightarrow> int \<Rightarrow> string \<Rightarrow>
   dispute_view promise" where
  "getDataForDispute K A B tok st disputeId account =
     (let arbitratorAddress = getContractAddress A in
      pbind (getDispute A disputeId) (\<lambda>dispute.
      pbind (getPeriod A) (\<lambda>period.
      pbind (getSession A) (\<lambda>session.
      let arbitrableContractAddress = arbitrableContractAddress dispute in
      pbind (getData B arbitrableContractAddress) (\<lambda>arbitrableContractData.
      pbind (getEvidenceForArbitrableContract B arbitrableContractAddress) (\<lambda>evidence.
      pbind (getContractByAddress tok st (partyA arbitrableContractData)
               arbitrableContractAddress) (\<lambda>contractStoreData.
      pbind (try_store_fields
               (getDisputeData tok st arbitratorAddress disputeId account)) (\<lambda>sf.
      let lastSession = firstSession dispute + numberOfAppeals dispute in
      pbind (appeal_loop (appeal_round K A dispute period session sf disputeId account)
               (numberOfAppeals dispute) 0 ([], [])) (\<lambda>rounds.
        Resolved
          \<lparr>v_arbitrableContractAddress = arbitrableContractAddress,
           v_arbitrableContractStatus = contract_status arbitrableContractData,
           v_arbitratorAddress = arbitratorAddress,
           v_partyA = partyA arbitrableContractData,
           v_partyB = partyB arbitrableContractData,
           v_disputeId = disputeId,
           v_firstSession = firstSession dispute,
           v_lastSession = lastSession,
           v_numberOfAppeals = numberOfAppeals dispute,
           v_disputeState = state dispute,
           v_disputeStatus = status dispute,
           v_appealJuror = fst rounds,
           v_appealRulings = snd rounds,
           v_description =
             (if truthy contractStoreData then field (the contractStoreData) ''description''
              else None),
           v_email =
             (if truthy contractStoreData then field (the contractStoreData) ''email''
              else None),
           v_evidence = evidence,
           v_netPNK = netPNK sf,
           v_appealCreatedAt = appealCreatedAt sf,
           v_appealDeadlines = appealDeadlines sf,
           v_appealRuledAt = appealRuledAt sf\<rparr>)))))))))"

section \<open>The event handlers\<close>

text \<open>
  The fields of an event log the handlers read: \<open>args._disputeID\<close> (a dispute index,
  after \<open>toNumber()\<close>), \<open>args._account\<close>, \<open>args._amount\<close> (the signed amount of the
  ledger, a \<open>BigNumber\<close>) and \<open>blockNumber\<close>. An event log has no other property the
  handlers use.
\<close>

record event =
  ev_disputeID :: int
  ev_account :: string
  ev_amount :: int
  ev_blockNumber :: nat

text \<open>
  \<open>await\<close> on a read inside a handler: the handler goes on with the value, or ends with
  the rejection, the store as it is.
\<close>

fun awaiting :: "'a promise \<Rightarrow> store \<Rightarrow> ('a \<Rightarrow> unit promise \<times> store) \<Rightarrow> unit promise \<times> store"
  where
  "awaiting (Resolved x) st k = k x"
| "awaiting (Rejected e) st k = (Rejected e, st)"
| "awaiting Pending st k = (Pending, st)"

text \<open>
  \<open>_storeNewDisputeHandler\<close>. The view \<open>getDataForDispute\<close> returns has no property
  \<open>status\<close>, so \<open>status: disputeData.status\<close> is undefined and is not serialised.
\<close>

definition storeNewDisputeHandler ::
  "constants \<Rightarrow> arbitrator \<Rightarrow> arbitrable \<Rightarrow> json option \<Rightarrow> event \<Rightarrow> string \<Rightarrow> store \<Rightarrow>
   unit promise \<times> store" where
  "storeNewDisputeHandler K A B tok event account st =
     (let disputeId = ev_disputeID event;
          contractAddress = getContractAddress A
      in awaiting (store_getDispute tok st contractAddress disputeId) st (\<lambda>existingDispute.
           if existingDispute = JNull then
             awaiting (getDataForDispute K A B tok st disputeId account) st (\<lambda>disputeData.
             awaiting (getData B (v_arbitrableContractAddress disputeData)) st
               (\<lambda>arbitrableContractData.
             awaiting (getBlock A (ev_blockNumber event)) st (\<lambda>blockTimestamp.
               let appealCreatedAt =
                     array_set (v_appealCreatedAt disputeData) (v_numberOfAppeals disputeData)
                       (JNum (int blockTimestamp * 1000));
                   (w, st') =
                     store_updateDispute tok contractAddress disputeId
                       [''contractAddress'' \<mapsto> JStr (v_arbitrableContractAddress disputeData),
                        ''partyA'' \<mapsto> JStr (partyA arbitrableContractData),
                        ''partyB'' \<mapsto> JStr (partyB arbitrableContractData),
                        ''appealCreatedAt'' \<mapsto> JArr appealCreatedAt] st
               in (pbind w (\<lambda>_. Resolved ()), st'))))
           else (Resolved (), st)))"

text \<open>
  \<open>dispute.netPNK || 0\<close> on the number the store keeps in \<open>netPNK\<close>, or on nothing.
\<close>

fun number_or_zero :: "json option \<Rightarrow> int" where
  "number_or_zero (Some (JNum n)) = n"
| "number_or_zero _ = 0"

text \<open>
  \<open>_storeTokensMovedForJuror\<close>. The entry found has, by the predicate that found it,
  \<open>arbitratorAddress = contractAddress\<close> and \<open>disputeId = disputeId\<close>. The new \<open>netPNK\<close>
  is a sum of two doubles, written to the request body by \<open>JSON.stringify\<close>.
\<close>

definition storeTokensMovedForJuror ::
  "arbitrator \<Rightarrow> json option \<Rightarrow> event \<Rightarrow> string \<Rightarrow> store \<Rightarrow> unit promise \<times> store" where
  "storeTokensMovedForJuror A tok event account st =
     (let disputeId = ev_disputeID event;
          address = ev_account event;
          amountShift = toNumber (ev_amount event)
      in if address = account then
           (case setUpUserProfile tok account st of (r, st1) \<Rightarrow>
              awaiting r st1 (\<lambda>userProfile.
                let contractAddress = getContractAddress A in
                case lodash_findIndex (field userProfile ''disputes'')
                       (\<lambda>dispute. field dispute ''disputeId'' = Some (JNum disputeId)
                          \<and> field dispute ''arbitratorAddress'' = Some (JStr contractAddress)) of
                  None \<Rightarrow> (Resolved (), st1)
                | Some disputeIndex \<Rightarrow>
                    let dispute = elements (field userProfile ''disputes'') ! disputeIndex;
                        (w, st2) =
                          updateDisputeProfile tok account contractAddress disputeId
                            [''netPNK'' \<mapsto>
                               js_number
                                 (js_add (number_or_zero (field dispute ''netPNK'')) amountShift)]
                            st1
                    in (pbind w (\<lambda>_. Resolved ()), st2)))
         else (Resolved (), st))"

text \<open>
  \<open>Promise.all(openDisputes.map(async disputeId => ...))\<close>: every callback runs, also
  after another has failed, and the whole rejects when one does. The callbacks are
  taken in the order of \<open>openDisputes\<close>.
\<close>

fun both :: "unit promise \<Rightarrow> unit promise \<Rightarrow> unit promise" where
  "both (Rejected e) r = Rejected e"
| "both (Resolved u) r = r"
| "both Pending (Rejected e) = Rejected e"
| "both Pending r = Pending"

fun for_each_open ::
  "(int \<Rightarrow> store \<Rightarrow> unit promise \<times> store) \<Rightarrow> int list \<Rightarrow> store \<Rightarrow> unit promise \<times> store" where
  "for_each_open f [] st = (Resolved (), st)"
| "for_each_open f (disputeId # rest) st =
     (let (r, st1) = f disputeId st;
          (rs, st2) = for_each_open f rest st1
      in (both r rs, st2))"

text \<open>
  The test \<open>_.findIndex(disputes, ...) >= 0\<close> where \<open>_\<close> is lodash: the user has a
  dispute profile for the open dispute.
\<close>

definition tracked :: "json option \<Rightarrow> int \<Rightarrow> string \<Rightarrow> bool" where
  "tracked disputes disputeId contractAddress \<longleftrightarrow>
     lodash_findIndex disputes
       (\<lambda>dispute. field dispute ''disputeId'' = Some (JNum disputeId)
          \<and> field dispute ''arbitratorAddress'' = Some (JStr contractAddress)) \<noteq> None"

text \<open>
  \<open>_storeAppealDeadline = async (_, account) => ...\<close>: the first parameter, the event
  log, is named \<open>_\<close>, so inside this handler the name \<open>_\<close> is the event log and not
  lodash. \<open>_.findIndex(...)\<close> there is a call of the property \<open>findIndex\<close> of the event
  log, which it does not have: a TypeError, raised before the arguments are used.
\<close>

datatype underscore = Lodash | EventLog event

fun underscore_findIndex ::
  "underscore \<Rightarrow> json option \<Rightarrow> (json \<Rightarrow> bool) \<Rightarrow> error + nat option" where
  "underscore_findIndex Lodash c p = Inr (lodash_findIndex c p)"
| "underscore_findIndex (EventLog log) c p = Inl TypeError"

text \<open>
  The callback of \<open>_storeAppealDeadline\<close> for one open dispute, with \<open>log\<close> the event
  log the handler was given. The promise of \<open>updateDispute\<close> is not awaited.
\<close>

definition storeAppealDeadline_one ::
  "constants \<Rightarrow> arbitrator \<Rightarrow> arbitrable \<Rightarrow> json option \<Rightarrow> event \<Rightarrow> string \<Rightarrow> json option \<Rightarrow>
   int \<Rightarrow> store \<Rightarrow> unit promise \<times> store" where
  "storeAppealDeadline_one K A B tok log account disputes disputeId st =
     (let contractAddress = getContractAddress A in
      case underscore_findIndex (EventLog log) disputes
             (\<lambda>dispute. field dispute ''disputeId'' = Some (JNum disputeId)
                \<and> field dispute ''arbitratorAddress'' = Some (JStr contractAddress)) of
        Inl err \<Rightarrow> (Rejected err, st)
      | Inr found \<Rightarrow>
          if found \<noteq> None then
            awaiting (getDeadlineForOpenDispute A) st (\<lambda>deadline.
            awaiting (getDataForDispute K A B tok st disputeId account) st (\<lambda>disputeData.
              let appealDeadlines =
                    array_set (v_appealDeadlines disputeData) (v_numberOfAppeals disputeData)
                      (JNum deadline);
                  (w, st') =
                    store_updateDispute tok contractAddress disputeId
                      [''appealDeadlines'' \<mapsto> JArr appealDeadlines] st
              in (Resolved (), st')))
          else (Resolved (), st))"

definition storeAppealDeadline ::
  "constants \<Rightarrow> arbitrator \<Rightarrow> arbitrable \<Rightarrow> json option \<Rightarrow> event \<Rightarrow> string \<Rightarrow> store \<Rightarrow>
   unit promise \<times> store" where
  "storeAppealDeadline K A B tok log account st =
     awaiting (getPeriod A) st (\<lambda>newPeriod.
       if newPeriod = PERIOD_VOTE K then
         awaiting (getDisputesForUser tok st account) st (\<lambda>disputes.
         awaiting (getOpenDisputesForSession A) st (\<lambda>openDisputes.
           for_each_open (storeAppealDeadline_one K A B tok log account disputes)
             openDisputes st))
       else (Resolved (), st))"

text \<open>The callback of \<open>_storeDisputeRuledAtTimestamp\<close> for one open dispute.\<close>

definition storeDisputeRuledAtTimestamp_one ::
  "constants \<Rightarrow> arbitrator \<Rightarrow> arbitrable \<Rightarrow> json option \<Rightarrow> event \<Rightarrow> string \<Rightarrow> json option \<Rightarrow>
   int \<Rightarrow> store \<Rightarrow> unit promise \<times> store" where
  "storeDisputeRuledAtTimestamp_one K A B tok event account disputes disputeId st =
     (let contractAddress = getContractAddress A in
      if tracked disputes disputeId contractAddress then
        awaiting (getBlock A (ev_blockNumber event)) st (\<lambda>blockTimestamp.
        awaiting (getDataForDispute K A B tok st disputeId account) st (\<lambda>disputeData.
          let appealRuledAt =
                array_set (v_appealRuledAt disputeData) (v_numberOfAppeals disputeData)
                  (JNum (int blockTimestamp * 1000));
              (w, st') =
                store_updateDispute tok contractAddress disputeId
                  [''appealRuledAt'' \<mapsto> JArr appealRuledAt] st
          in (Resolved (), st')))
      else (Resolved (), st))"

definition storeDisputeRuledAtTimestamp ::
  "constants \<Rightarrow> arbitrator \<Rightarrow> arbitrable \<Rightarrow> json option \<Rightarrow> event \<Rightarrow> string \<Rightarrow> store \<Rightarrow>
   unit promise \<times> store" where
  "storeDisputeRuledAtTimestamp K A B tok event account st =
     awaiting (getPeriod A) st (\<lambda>newPeriod.
       if newPeriod = PERIOD_APPEAL K then
         awaiting (getDisputesForUser tok st account) st (\<lambda>disputes.
         awaiting (getOpenDisputesForSession A) st (\<lambda>openDisputes.
           for_each_open (storeDisputeRuledAtTimestamp_one K A B tok event account disputes)
             openDisputes st))
       else (Resolved (), st))"

section \<open>The juror draw scanner\<close>







section \<open>The ordered write queue\<close>

text \<open>
  Modelled from the spec: \<open>PromiseQueue\<close>, whose \<open>fetch\<close> the gateway calls, is not
  among the sources. From the spec: operations execute in submission order; at most one
  operation is executing at any time; the failure of one operation does not abort the
  operations enqueued after it; there is no cancellation. A job is what
  \<open>queueWriteRequest\<close> hands over: a read phase (\<open>getBodyFn\<close>) and then the request made
  with the body read. Callers submit jobs at any moment, also while a job is between
  its read and its request; each tick of the event loop starts the oldest waiting job
  when none is executing, or takes the executing job one phase further. A job whose
  promise never settles holds the queue for ever.
\<close>

record job =
  job_getBodyFn :: "store \<Rightarrow> json promise"
  job_verb :: string
  job_uri :: uri

datatype phase = Reading | Writing json | Hung

datatype qevent = Submitted nat | Started nat | BodyRead nat | Committed nat | Failed nat

record queue =
  q_store :: store
  q_waiting :: "(nat \<times> job) list"
  q_running :: "(nat \<times> job \<times> phase) option"
  q_next :: nat
  q_trace :: "qevent list"

datatype action = Submit job | Tick

definition new_queue :: "store \<Rightarrow> queue" where
  "new_queue st =
     \<lparr>q_store = st, q_waiting = [], q_running = None, q_next = 0, q_trace = []\<rparr>"

text \<open>
  Modelled from the spec: \<open>fetch\<close> of \<open>PromiseQueue\<close> is missing. A submitted job takes
  the next ticket and waits behind the jobs submitted before it.
\<close>

definition submit :: "job \<Rightarrow> queue \<Rightarrow> queue" where
  "submit j q =
     q\<lparr>q_waiting := q_waiting q @ [(q_next q, j)],
       q_next := Suc (q_next q),
       q_trace := q_trace q @ [Submitted (q_next q)]\<rparr>"

text \<open>
  Modelled from the spec: how \<open>PromiseQueue\<close> runs its jobs is missing. With no job
  executing, the oldest waiting job starts. The executing job does its read phase, and
  then its request; when it has finished, by committing or by failing, the next tick
  starts the next job.
\<close>

definition tick :: "json option \<Rightarrow> queue \<Rightarrow> queue" where
  "tick tok q =
     (case q_running q of
        None \<Rightarrow>
          (case q_waiting q of
             [] \<Rightarrow> q
           | (i, j) # rest \<Rightarrow>
               q\<lparr>q_running := Some (i, j, Reading), q_waiting := rest,
                 q_trace := q_trace q @ [Started i]\<rparr>)
      | Some (i, j, Reading) \<Rightarrow>
          (case job_getBodyFn j (q_store q) of
             Resolved b \<Rightarrow>
               q\<lparr>q_running := Some (i, j, Writing b), q_trace := q_trace q @ [BodyRead i]\<rparr>
           | Rejected e \<Rightarrow> q\<lparr>q_running := None, q_trace := q_trace q @ [Failed i]\<rparr>
           | Pending \<Rightarrow> q\<lparr>q_running := Some (i, j, Hung)\<rparr>)
      | Some (i, j, Writing b) \<Rightarrow>
          (case makeRequest tok (job_verb j) (job_uri j) (Some b) store_service (q_store q) of
             (Resolved r, st') \<Rightarrow>
               q\<lparr>q_store := st', q_running := None, q_trace := q_trace q @ [Committed i]\<rparr>
           | (Rejected e, st') \<Rightarrow>
               q\<lparr>q_store := st', q_running := None, q_trace := q_trace q @ [Failed i]\<rparr>
           | (Pending, st') \<Rightarrow> q\<lparr>q_store := st', q_running := Some (i, j, Hung)\<rparr>)
      | Some (i, j, Hung) \<Rightarrow> q)"

fun act :: "json option \<Rightarrow> action \<Rightarrow> queue \<Rightarrow> queue" where
  "act tok (Submit j) q = submit j q"
| "act tok Tick q = tick tok q"

fun run :: "json option \<Rightarrow> action list \<Rightarrow> queue \<Rightarrow> queue" where
  "run tok [] q = q"
| "run tok (a # as) q = run tok as (act tok a q)"

text \<open>
  What a trace says: the tickets of the jobs started, of the jobs finished (their
  request committed, or failed), and of the jobs whose request was committed, each in the
  order of the events.
\<close>

fun started :: "qevent list \<Rightarrow> nat list" where
  "started [] = []"
| "started (Started i # es) = i # started es"
| "started (e # es) = started es"

fun finished :: "qevent list \<Rightarrow> nat list" where
  "finished [] = []"
| "finished (Committed i # es) = i # finished es"
| "finished (Failed i # es) = i # finished es"
| "finished (e # es) = finished es"

fun committed :: "qevent list \<Rightarrow> nat list" where
  "committed [] = []"
| "committed (Committed i # es) = i # committed es"
| "committed (e # es) = committed es"

fun submitted :: "qevent list \<Rightarrow> nat list" where
  "submitted [] = []"
| "submitted (Submitted i # es) = i # submitted es"
| "submitted (e # es) = submitted es"

text \<open>
  The body an executing job is about to send is the body its read phase gives on the
  store as it is now: nothing was written since it was read.
\<close>

definition read_is_current :: "queue \<Rightarrow> bool" where
  "read_is_current q =
     (case q_running q of
        Some (i, j, Writing b) \<Rightarrow> job_getBodyFn j (q_store q) = Resolved b
      | _ \<Rightarrow> True)"

text \<open>The job of \<open>queueWriteRequest(getBodyFn, verb, uri)\<close>.\<close>

definition write_job :: "(store \<Rightarrow> json promise) \<Rightarrow> string \<Rightarrow> uri \<Rightarrow> job" where
  "write_job getBodyFn verb uri =
     \<lparr>job_getBodyFn = getBodyFn, job_verb = verb, job_uri = uri\<rparr>"

section \<open>Notions the properties are stated with\<close>

text \<open>
  The current record an update starts from: the stored profile, or the dispute profile
  of the user for \<open>(arbitratorAddress, disputeId)\<close>; the empty object when there is none.
\<close>

definition current_user_profile :: "store \<Rightarrow> string \<Rightarrow> obj" where
  "current_user_profile st u = (case profiles st u of None \<Rightarrow> Map.empty | Some p \<Rightarrow> p)"

definition current_dispute_profile :: "store \<Rightarrow> string \<Rightarrow> string \<Rightarrow> int \<Rightarrow> obj" where
  "current_dispute_profile st u a d =
     (case first (lodash_filter (field (profile_json st u) ''disputes'') (same_dispute a d)) of
        None \<Rightarrow> Map.empty | Some x \<Rightarrow> as_obj x)"

text \<open>The shared record of a dispute, the empty object when there is none.\<close>

definition current_dispute_record :: "store \<Rightarrow> string \<Rightarrow> int \<Rightarrow> obj" where
  "current_dispute_record st a d =
     (case dispute_records st (a, d) of None \<Rightarrow> Map.empty | Some r \<Rightarrow> r)"

text \<open>A store with nothing in it, and one where user \<open>0xA\<close> tracks dispute 5 of \<open>0xK\<close>.\<close>

definition empty_store :: store where
  "empty_store = \<lparr>profiles = Map.empty, dispute_records = Map.empty\<rparr>"

definition example_store :: store where
  "example_store =
     \<lparr>profiles =
        [''0xA'' \<mapsto>
           [''_id'' \<mapsto> JStr ''5a1'', ''session'' \<mapsto> JNum 3,
            ''disputes'' \<mapsto>
              JArr [JObj [''arbitratorAddress'' \<mapsto> JStr ''0xK'', ''disputeId'' \<mapsto> JNum 5,
                          ''netPNK'' \<mapsto> JNum 0, ''isJuror'' \<mapsto> JBool True,
                          ''appealDraws'' \<mapsto> JArr [JArr [JNum 1], JArr [JNum 2, JNum 3]]]]]],
      dispute_records = Map.empty\<rparr>"

text \<open>
  The ledger of the spec's scenario: dispute 5 of arbitrator \<open>0xK\<close>, with
  \<open>firstSession = 10\<close> and \<open>numberOfAppeals = 1\<close>, in session 11 and in the execute
  period; and values for the constants.
\<close>

definition kleros_constants :: constants where
  "kleros_constants =
     \<lparr>PERIOD_VOTE = 2, PERIOD_APPEAL = 3, PERIOD_EXECUTE = 4,
      STATE_OPEN = 0, STATE_EXECUTABLE = 2\<rparr>"

definition example_dispute :: dispute where
  "example_dispute =
     \<lparr>arbitrableContractAddress = ''0xC'', firstSession = 10, numberOfAppeals = 1,
      state = 0, status = 1, arbitrationFeePerJuror = 2,
      voteCounters = [JArr [JNum 0, JNum 3, JNum 0], JArr [JNum 0, JNum 1, JNum 0]]\<rparr>"

definition example_arbitrator :: arbitrator where
  "example_arbitrator =
     \<lparr>getContractAddress = ''0xK'',
      getDispute = (\<lambda>d. if d = 5 then Resolved example_dispute
                         else Rejected (LedgerError ''no dispute'')),
      getPeriod = Resolved 4,
      getSession = Resolved 11,
      currentRulingForDispute = (\<lambda>d r. Resolved 1),
      canRuleDispute = (\<lambda>d ds a. Resolved True),
      getBlock = (\<lambda>b. Resolved 1500),
      getOpenDisputesForSession = Resolved [5],
      getDeadlineForOpenDispute = Resolved 2000\<rparr>"

definition example_arbitrable :: arbitrable where
  "example_arbitrable =
     \<lparr>getData = (\<lambda>a. Resolved \<lparr>partyA = ''0xA'', partyB = ''0xB'', contract_status = 3\<rparr>),
      getEvidenceForArbitrableContract = (\<lambda>a. Resolved [])\<rparr>"

text \<open>A ledger in session 0 with an open dispute 0 that was never appealed.\<close>

definition session_zero_arbitrator :: arbitrator where
  "session_zero_arbitrator =
     example_arbitrator
       \<lparr>getDispute := (\<lambda>d. Resolved (example_dispute\<lparr>firstSession := 0, numberOfAppeals := 0\<rparr>)),
        getSession := Resolved 0\<rparr>"

text \<open>What \<open>getDataForDispute\<close> reads from the example store for user \<open>0xA\<close>.\<close>

definition example_store_fields :: store_fields where
  "example_store_fields =
     \<lparr>appealDraws = [JArr [JNum 1], JArr [JNum 2, JNum 3]], appealCreatedAt = [],
      appealDeadlines = [], appealRuledAt = [], netPNK = JNum 0\<rparr>"


text \<open>The creation event of dispute 5, in block 7.\<close>

definition creation_event :: event where
  "creation_event = \<lparr>ev_disputeID = 5, ev_account = ''0xA'', ev_amount = 0, ev_blockNumber = 7\<rparr>"


text \<open>
  Token-shift events delivered to the handler one after the other, each handled to its
  end before the next; whether a user has a dispute profile for \<open>(arbitratorAddress,
  disputeId)\<close>, and the \<open>netPNK\<close> it holds.
\<close>

fun deliver_token_shifts :: "arbitrator \<Rightarrow> json option \<Rightarrow> event list \<Rightarrow> string \<Rightarrow> store \<Rightarrow> store"
  where
  "deliver_token_shifts A tok [] account st = st"
| "deliver_token_shifts A tok (event # events) account st =
     deliver_token_shifts A tok events account
       (snd (storeTokensMovedForJuror A tok event account st))"

definition has_dispute_profile :: "store \<Rightarrow> string \<Rightarrow> string \<Rightarrow> int \<Rightarrow> bool" where
  "has_dispute_profile st u a d \<longleftrightarrow>
     lodash_filter (field (profile_json st u) ''disputes'') (same_dispute a d) \<noteq> []"

definition stored_netPNK :: "store \<Rightarrow> string \<Rightarrow> string \<Rightarrow> int \<Rightarrow> int" where
  "stored_netPNK st u a d = number_or_zero (current_dispute_profile st u a d ''netPNK'')"

definition token_shift :: "int \<Rightarrow> string \<Rightarrow> int \<Rightarrow> event" where
  "token_shift d u amount =
     \<lparr>ev_disputeID = d, ev_account = u, ev_amount = amount, ev_blockNumber = 7\<rparr>"

text \<open>
  The \<open>netPNK\<close> read back from the store after an event of the given amount was
  handled on a stored \<open>netPNK\<close> of \<open>n\<close>; and the whole numbers every double holds
  exactly, those of \<open>Number.isSafeInteger\<close>.
\<close>

definition shifted :: "int \<Rightarrow> int \<Rightarrow> int" where
  "shifted n amount = number_or_zero (Some (js_number (js_add n (toNumber amount))))"

definition safe_integer :: "int \<Rightarrow> bool" where
  "safe_integer n \<longleftrightarrow> \<bar>n\<bar> < 2 ^ 53"

text \<open>
  The example store when the dispute profile of user \<open>0xA\<close> holds \<open>2 ^ 53\<close> as
  \<open>netPNK\<close>.
\<close>

definition large_netPNK_store :: store where
  "large_netPNK_store =
     \<lparr>profiles =
        [''0xA'' \<mapsto>
           [''disputes'' \<mapsto>
              JArr [JObj [''arbitratorAddress'' \<mapsto> JStr ''0xK'', ''disputeId'' \<mapsto> JNum 5,
                          ''netPNK'' \<mapsto> JNum 9007199254740992]]]],
      dispute_records = Map.empty\<rparr>"










text \<open>
  The array the store holds in a field of the shared record of a dispute; and the
  example ledger when dispute 5 is in its round \<open>n\<close>, in the vote period, at block
  timestamp \<open>ts\<close> and with the deadline \<open>dl\<close> for its open disputes.
\<close>

definition stored_array :: "store \<Rightarrow> string \<Rightarrow> int \<Rightarrow> string \<Rightarrow> json list" where
  "stored_array st a d k = elements (current_dispute_record st a d k)"

definition round_arbitrator :: "nat \<Rightarrow> int \<Rightarrow> arbitrator" where
  "round_arbitrator n dl =
     example_arbitrator
       \<lparr>getDispute := (\<lambda>d. if d = 5 then Resolved (example_dispute\<lparr>numberOfAppeals := n\<rparr>)
                           else Rejected (LedgerError ''no dispute'')),
        getPeriod := Resolved 2,
        getDeadlineForOpenDispute := Resolved dl\<rparr>"

text \<open>
  A new-period event, in block 9 (its \<open>args\<close> are not read). New-period events
  delivered to the deadline handler of user \<open>0xA\<close> one after the other, the ledger at
  each delivery in the round and with the deadline given. And the example ledger when
  dispute 5 is in its round \<open>n\<close>, in the appeal period.
\<close>

definition new_period_event :: event where
  "new_period_event = \<lparr>ev_disputeID = 0, ev_account = [], ev_amount = 0, ev_blockNumber = 9\<rparr>"

fun deliver_new_periods :: "(nat \<times> int) list \<Rightarrow> store \<Rightarrow> store" where
  "deliver_new_periods [] st = st"
| "deliver_new_periods ((n, dl) # rest) st =
     deliver_new_periods rest
       (snd (storeAppealDeadline kleros_constants (round_arbitrator n dl) example_arbitrable
               (Some (JStr ''t'')) new_period_event ''0xA'' st))"

definition appeal_period_arbitrator :: "nat \<Rightarrow> arbitrator" where
  "appeal_period_arbitrator n = (round_arbitrator n 0)\<lparr>getPeriod := Resolved 3\<rparr>"

text \<open>The dispute profile of user \<open>0xA\<close> in the example store.\<close>

definition example_dispute_profile :: obj where
  "example_dispute_profile =
     [''arbitratorAddress'' \<mapsto> JStr ''0xK'', ''disputeId'' \<mapsto> JNum 5,
      ''netPNK'' \<mapsto> JNum 0, ''isJuror'' \<mapsto> JBool True,
      ''appealDraws'' \<mapsto> JArr [JArr [JNum 1], JArr [JNum 2, JNum 3]]]"


text \<open>
  What holds of the queue after every schedule: jobs start and finish in the order of
  their tickets, which is the order of submission; the waiting jobs are those not yet
  started; at most the job started last has not finished.
\<close>

definition queue_inv :: "queue \<Rightarrow> bool" where
  "queue_inv q \<longleftrightarrow>
     started (q_trace q) = [0..<length (started (q_trace q))]
     \<and> finished (q_trace q) = [0..<length (finished (q_trace q))]
     \<and> submitted (q_trace q) = [0..<q_next q]
     \<and> map fst (q_waiting q) = [length (started (q_trace q))..<q_next q]
     \<and> length (started (q_trace q)) \<le> q_next q
     \<and> sorted_wrt (<) (committed (q_trace q))
     \<and> list_all (\<lambda>i. i < length (finished (q_trace q))) (committed (q_trace q))
     \<and> (case q_running q of
          None \<Rightarrow> length (finished (q_trace q)) = length (started (q_trace q))
        | Some (i, j, ph) \<Rightarrow>
            length (started (q_trace q)) = Suc i \<and> length (finished (q_trace q)) = i)
     \<and> read_is_current q"


text \<open>
  Two updates of the profile of user \<open>0xA\<close>, the second submitted while the first is
  between its read and its request.
\<close>

definition example_schedule :: "action list" where
  "example_schedule =
     [Submit (write_job (updateUserProfile_getBodyFn (Some (JStr ''t'')) ''0xA''
                [''lastBlock'' \<mapsto> JNum 9]) ''POST'' (UserUri ''0xA'')),
      Tick, Tick,
      Submit (write_job (updateUserProfile_getBodyFn (Some (JStr ''t'')) ''0xA''
                [''session'' \<mapsto> JNum 4]) ''POST'' (UserUri ''0xA'')),
      Tick, Tick, Tick, Tick]"


section \<open>Properties of the store transport and gateway\<close>

lemma GET_profile:
  "makeRequest tok ''GET'' (UserUri u) None store_service st =
     (Resolved \<lparr>resp_body = profile_json st u, resp_status = 200\<rparr>, st)"
  by (simp add: makeRequest_def store_service_def)

lemma getUserProfile_eq: "getUserProfile tok st u = Resolved (profile_json st u)"
  by (simp add: getUserProfile_def GET_profile)

lemma first_filter_upsert: "p b \<Longrightarrow> first (filter p (upsert p b xs)) = Some b"
  by (induction xs) auto

lemma updateUserProfile_body:
  "updateUserProfile_getBodyFn tok u params st =
     Resolved (JObj ((case profiles st u of None \<Rightarrow> Map.empty | Some p \<Rightarrow> p)
                       (''_id'' := None, ''created_at'' := None)
                     ++ params(''address'' \<mapsto> JStr u)))"
  by (simp add: updateUserProfile_getBodyFn_def getUserProfile_eq profile_json_def
      split: option.splits)

lemma POST_profile:
  "truthy tok \<Longrightarrow> makeRequest tok ''POST'' (UserUri u) (Some b) store_service st =
     (Resolved \<lparr>resp_body = JArr [b], resp_status = 201\<rparr>,
      st\<lparr>profiles := (profiles st)(u \<mapsto> as_obj b)\<rparr>)"
  by (simp add: makeRequest_def store_service_def)


lemma as_obj_falsy: "\<not> truthy (Some x) \<Longrightarrow> as_obj x = Map.empty"
  by (cases x) auto

lemma updateDisputeProfile_body:
  "profiles st u = Some p \<Longrightarrow>
   updateDisputeProfile_getBodyFn tok u a d params st =
     Resolved (JObj ((current_dispute_profile st u a d)(''_id'' := None)
                     ++ params(''disputeId'' \<mapsto> JNum d, ''arbitratorAddress'' \<mapsto> JStr a)))"
  by (auto simp: updateDisputeProfile_getBodyFn_def getUserProfile_eq profile_json_def
      current_dispute_profile_def Let_def as_obj_falsy split: option.splits)

lemma POST_dispute_profile:
  "truthy tok \<Longrightarrow>
   makeRequest tok ''POST'' (DisputeProfileUri u a d) (Some b) store_service st =
     (let p = current_user_profile st u;
          p' = p(''disputes'' \<mapsto> JArr (upsert (same_dispute a d) b (elements (p ''disputes''))))
      in (Resolved \<lparr>resp_body = JArr [JObj p'], resp_status = 201\<rparr>,
          st\<lparr>profiles := (profiles st)(u \<mapsto> p')\<rparr>))"
  by (simp add: makeRequest_def store_service_def current_user_profile_def Let_def)

lemma updateDisputeProfile_eq:
  "truthy tok \<Longrightarrow> profiles st u = Some p \<Longrightarrow>
   snd (updateDisputeProfile tok u a d params st) =
     st\<lparr>profiles := (profiles st)(u \<mapsto>
          p(''disputes'' \<mapsto> JArr (upsert (same_dispute a d)
             (JObj ((current_dispute_profile st u a d)(''_id'' := None)
                     ++ params(''disputeId'' \<mapsto> JNum d, ''arbitratorAddress'' \<mapsto> JStr a)))
             (elements (p ''disputes'')))))\<rparr>"
  by (simp add: updateDisputeProfile_def queueWriteRequest_def updateDisputeProfile_body
      POST_dispute_profile current_user_profile_def Let_def)

text \<open>
  C9, as the code has it. A \<open>GET\<close>, or any request with a token set, is sent. A
  request that is not a \<open>GET\<close> and is made with no token fails with the auth error and
  nothing is sent: the outside world is as it was. When \<open>open\<close> or \<open>send\<close> throws the
  request fails with \<open>REQUEST_FAILED\<close>; a response with status 401 and a body that
  is not null fails with \<open>INVALID_AUTH_TOKEN\<close>; a response with any other status,
  2xx or not, resolves with its body and status.
\<close>

theorem makeRequest_outcomes:
  "(verb \<noteq> ''GET'' \<and> \<not> truthy tok \<longrightarrow>
      makeRequest tok verb uri body net s = (Rejected NO_AUTH_TOKEN, s))
   \<and> (verb = ''GET'' \<or> truthy tok \<longrightarrow>
      (net s verb uri body = (SendThrows err, s') \<longrightarrow>
         makeRequest tok verb uri body net s = (Rejected (REQUEST_FAILED err), s'))
    \<and> (net s verb uri body = (Response 401 b, s') \<and> b \<noteq> JNull \<longrightarrow>
         makeRequest tok verb uri body net s =
           (Rejected (INVALID_AUTH_TOKEN (field b ''error'')), s'))
    \<and> (net s verb uri body = (Response code b, s') \<and> code \<noteq> 401 \<longrightarrow>
         makeRequest tok verb uri body net s =
           (Resolved \<lparr>resp_body = b, resp_status = code\<rparr>, s')))"
  by (auto simp: makeRequest_def)

theorem makeRequest_outcomes_witness:
  "makeRequest None ''POST'' ''/u'' (Some (JStr ''{}'')) (logging_net (Response 201 JNull)) []
     = (Rejected NO_AUTH_TOKEN, [])
   \<and> makeRequest None ''GET'' ''/u'' None (logging_net (SendThrows ''offline'')) []
     = (Rejected (REQUEST_FAILED ''offline''), [(''GET'', ''/u'', None)])
   \<and> makeRequest (Some (JStr ''t'')) ''POST'' ''/u'' (Some (JStr ''{}''))
        (logging_net (Response 401 (JObj [''error'' \<mapsto> JStr ''bad token'']))) []
     = (Rejected (INVALID_AUTH_TOKEN (Some (JStr ''bad token''))),
        [(''POST'', ''/u'', Some (JStr ''{}''))])
   \<and> makeRequest None ''GET'' ''/u'' None (logging_net (Response 200 (JNum 7))) []
     = (Resolved \<lparr>resp_body = JNum 7, resp_status = 200\<rparr>, [(''GET'', ''/u'', None)])"
  using makeRequest_outcomes [where verb="''POST''" and tok=None and uri="''/u''"
          and body="Some (JStr ''{}'')" and net="logging_net (Response 201 JNull)" and s="[]"]
        makeRequest_outcomes [where verb="''GET''" and tok=None and uri="''/u''" and body=None
          and net="logging_net (SendThrows ''offline'')" and s="[]" and err="''offline''"
          and s'="[(''GET'', ''/u'', None)]"]
        makeRequest_outcomes [where verb="''POST''" and tok="Some (JStr ''t'')"
          and uri="''/u''" and body="Some (JStr ''{}'')"
          and net="logging_net (Response 401 (JObj [''error'' \<mapsto> JStr ''bad token'']))"
          and s="[]" and b="JObj [''error'' \<mapsto> JStr ''bad token'']"
          and s'="[(''POST'', ''/u'', Some (JStr ''{}''))]"]
        makeRequest_outcomes [where verb="''GET''" and tok=None and uri="''/u''" and body=None
          and net="logging_net (Response 200 (JNum 7))" and s="[]" and code=200
          and b="JNum 7" and s'="[(''GET'', ''/u'', None)]"]
  by (simp add: logging_net_def)

text \<open>
  C9 as stated fails: the response 500 to a request that was sent does not give
  \<open>REQUEST_FAILED\<close>; the promise resolves with the status.
\<close>

theorem makeRequest_server_error_resolves:
  "makeRequest (Some (JStr ''t'')) ''GET'' ''/u'' None (logging_net (Response 500 JNull)) []
     = (Resolved \<lparr>resp_body = JNull, resp_status = 500\<rparr>, [(''GET'', ''/u'', None)])"
  by (simp add: makeRequest_def logging_net_def)

text \<open>
  C10: for a user address with no stored profile, \<open>getDisputes\<close> returns the empty list,
  while \<open>getContractByAddress\<close> and \<open>getDisputeDataForUser\<close> raise
  \<open>PROFILE_NOT_FOUND\<close>.
\<close>

theorem missing_profile_asymmetry:
  "profiles st u = None \<Longrightarrow>
     getDisputes tok st u = Resolved (Some (JArr []))
     \<and> getContractByAddress tok st u c = Rejected (PROFILE_NOT_FOUND u)
     \<and> getDisputeDataForUser tok st u a d = Rejected (PROFILE_NOT_FOUND u)"
  by (simp add: getDisputes_def getContractByAddress_def getDisputeDataForUser_def
      getUserProfile_eq profile_json_def)

theorem missing_profile_asymmetry_witness:
  "profiles empty_store ''0xA'' = None
   \<and> getDisputes None empty_store ''0xA'' = Resolved (Some (JArr []))
   \<and> getContractByAddress None empty_store ''0xA'' ''0xC'' = Rejected (PROFILE_NOT_FOUND ''0xA'')
   \<and> getDisputeDataForUser None empty_store ''0xA'' ''0xK'' 5 = Rejected (PROFILE_NOT_FOUND ''0xA'')"
  using missing_profile_asymmetry [of empty_store "''0xA''" None "''0xC''" "''0xK''" 5]
  by (simp add: empty_store_def)




section \<open>Properties of the reconciliation engine\<close>

lemma pbind_Resolved_iff:
  "pbind p f = Resolved y \<longleftrightarrow> (\<exists>x. p = Resolved x \<and> f x = Resolved y)"
  by (cases p) auto

lemma appeal_loop_Resolved:
  "appeal_loop body n appeal acc = Resolved res \<Longrightarrow> appeal \<le> Suc n \<Longrightarrow>
   length (fst acc) = appeal \<Longrightarrow> length (snd acc) = appeal \<Longrightarrow>
   length (fst res) = Suc n \<and> length (snd res) = Suc n
   \<and> (\<forall>r. appeal \<le> r \<and> r \<le> n \<longrightarrow> body r = Resolved (fst res ! r, snd res ! r))
   \<and> (\<forall>i<appeal. fst res ! i = fst acc ! i \<and> snd res ! i = snd acc ! i)"
proof (induction body n appeal acc rule: appeal_loop.induct)
  case (1 body n appeal acc)
  show ?case
  proof (cases "appeal \<le> n")
    case False
    with "1.prems" have "appeal = Suc n" "res = acc"
      by (simp_all add: appeal_loop.simps [of body n appeal acc])
    with "1.prems" show ?thesis by auto
  next
    case True
    then obtain jr where b: "body appeal = Resolved jr"
      and rec: "appeal_loop body n (Suc appeal) (fst acc @ [fst jr], snd acc @ [snd jr])
                 = Resolved res"
      using "1.prems"(1)
      by (simp add: appeal_loop.simps [of body n appeal acc] split: promise.splits)
    have IH: "length (fst res) = Suc n \<and> length (snd res) = Suc n
       \<and> (\<forall>r. Suc appeal \<le> r \<and> r \<le> n \<longrightarrow> body r = Resolved (fst res ! r, snd res ! r))
       \<and> (\<forall>i<Suc appeal. fst res ! i = fst (fst acc @ [fst jr], snd acc @ [snd jr]) ! i
             \<and> snd res ! i = snd (fst acc @ [fst jr], snd acc @ [snd jr]) ! i)"
      using "1.IH" [OF True b rec] True "1.prems" by simp
    have at: "fst res ! appeal = fst jr \<and> snd res ! appeal = snd jr"
      using IH "1.prems" by (auto simp: nth_append)
    have old: "\<forall>i<appeal. fst res ! i = fst acc ! i \<and> snd res ! i = snd acc ! i"
      using IH "1.prems" by (auto simp: nth_append)
    have new: "\<forall>r. appeal \<le> r \<and> r \<le> n \<longrightarrow> body r = Resolved (fst res ! r, snd res ! r)"
    proof (intro allI impI)
      fix r assume r: "appeal \<le> r \<and> r \<le> n"
      show "body r = Resolved (fst res ! r, snd res ! r)"
      proof (cases "r = appeal")
        case True
        with b at show ?thesis by simp
      next
        case False
        with r IH show ?thesis by simp
      qed
    qed
    from IH old new show ?thesis by simp
  qed
qed


lemma appeal_loop_cong:
  "(\<forall>r. appeal \<le> r \<and> r \<le> n \<longrightarrow> body r = body' r) \<Longrightarrow>
   appeal_loop body n appeal acc = appeal_loop body' n appeal acc"
proof (induction body n appeal acc rule: appeal_loop.induct)
  case (1 body n appeal acc)
  show ?case
  proof (cases "appeal \<le> n")
    case False
    then show ?thesis
      by (simp add: appeal_loop.simps [of body n appeal acc]
          appeal_loop.simps [of body' n appeal acc])
  next
    case True
    have same: "body appeal = body' appeal" using True "1.prems" by simp
    show ?thesis
    proof (cases "body appeal")
      case (Resolved jr)
      have "appeal_loop body n (Suc appeal) (fst acc @ [fst jr], snd acc @ [snd jr])
          = appeal_loop body' n (Suc appeal) (fst acc @ [fst jr], snd acc @ [snd jr])"
        using "1.IH" [OF True Resolved] "1.prems" by simp
      with True Resolved same [symmetric] show ?thesis
        by (simp add: appeal_loop.simps [of body n appeal acc]
            appeal_loop.simps [of body' n appeal acc])
    next
      case (Rejected e)
      with True same [symmetric] show ?thesis
        by (simp add: appeal_loop.simps [of body n appeal acc]
            appeal_loop.simps [of body' n appeal acc])
    next
      case Pending
      with True same [symmetric] show ?thesis
        by (simp add: appeal_loop.simps [of body n appeal acc]
            appeal_loop.simps [of body' n appeal acc])
    qed
  qed
qed

lemma getDataForDispute_Resolved:
  assumes "getDataForDispute K A B tok st d acct = Resolved v"
  shows "\<exists>dispute period session sf rounds.
      getDispute A d = Resolved dispute \<and> getPeriod A = Resolved period
      \<and> getSession A = Resolved session
      \<and> try_store_fields (getDisputeData tok st (getContractAddress A) d acct) = Resolved sf
      \<and> appeal_loop (appeal_round K A dispute period session sf d acct)
            (numberOfAppeals dispute) 0 ([], []) = Resolved rounds
      \<and> v_appealJuror v = fst rounds \<and> v_appealRulings v = snd rounds
      \<and> v_lastSession v = firstSession dispute + numberOfAppeals dispute
      \<and> v_numberOfAppeals v = numberOfAppeals dispute
      \<and> v_disputeState v = state dispute
      \<and> v_arbitrableContractAddress v = arbitrableContractAddress dispute
      \<and> v_netPNK v = netPNK sf
      \<and> v_appealCreatedAt v = appealCreatedAt sf
      \<and> v_appealDeadlines v = appealDeadlines sf
      \<and> v_appealRuledAt v = appealRuledAt sf"
  using assms
  by (auto simp: getDataForDispute_def Let_def pbind_Resolved_iff)

lemma appeal_round_Resolved:
  assumes "appeal_round K A dispute period session sf d acct r = Resolved (j, rl)"
  shows "draws j = round_draws sf r
     \<and> (canRepartition rl \<longleftrightarrow> r = numberOfAppeals dispute \<and> session \<noteq> 0 \<and> period \<noteq> 0
          \<and> firstSession dispute + numberOfAppeals dispute \<le> session
          \<and> period = PERIOD_EXECUTE K \<and> state dispute = STATE_OPEN K)
     \<and> (canExecute rl \<longleftrightarrow> r = numberOfAppeals dispute \<and> state dispute = STATE_EXECUTABLE K)
     \<and> (r \<noteq> numberOfAppeals dispute \<or> round_draws sf r = [] \<longrightarrow> canRule j = None)
     \<and> (r = numberOfAppeals dispute \<and> round_draws sf r \<noteq> [] \<longrightarrow>
          (\<exists>b. canRuleDispute A d (round_draws sf r) acct = Resolved b \<and> canRule j = Some b))"
  using assms
  by (auto simp: appeal_round_def canRule_read_def Let_def pbind_Resolved_iff split: if_splits)

lemma canRule_read_update:
  assumes "isLast \<and> ds \<noteq> [] \<longrightarrow> f d ds acct = canRuleDispute A d ds acct"
  shows "canRule_read (A\<lparr>canRuleDispute := f\<rparr>) isLast ds d acct = canRule_read A isLast ds d acct"
  using assms by (simp add: canRule_read_def)

lemma appeal_round_update_canRule:
  assumes "r = numberOfAppeals dispute \<and> round_draws sf r \<noteq> [] \<longrightarrow>
             f d (round_draws sf r) acct = canRuleDispute A d (round_draws sf r) acct"
  shows "appeal_round K (A\<lparr>canRuleDispute := f\<rparr>) dispute period session sf d acct r
       = appeal_round K A dispute period session sf d acct r"
proof -
  have "canRule_read (A\<lparr>canRuleDispute := f\<rparr>)
          (firstSession dispute + r = firstSession dispute + numberOfAppeals dispute)
          (round_draws sf r) d acct
      = canRule_read A
          (firstSession dispute + r = firstSession dispute + numberOfAppeals dispute)
          (round_draws sf r) d acct"
    by (rule canRule_read_update) (use assms in simp)
  then show ?thesis
    by (simp add: appeal_round_def Let_def del: add_left_cancel)
qed

lemma getDataForDispute_update_canRule:
  assumes d: "getDispute A disputeId = Resolved dispute"
    and sf: "try_store_fields (getDisputeData tok st (getContractAddress A) disputeId account)
               = Resolved sf"
    and f: "round_draws sf (numberOfAppeals dispute) \<noteq> [] \<longrightarrow>
             f disputeId (round_draws sf (numberOfAppeals dispute)) account
             = canRuleDispute A disputeId (round_draws sf (numberOfAppeals dispute)) account"
  shows "getDataForDispute K (A\<lparr>canRuleDispute := f\<rparr>) B tok st disputeId account
       = getDataForDispute K A B tok st disputeId account"
proof -
  have loop: "appeal_loop
        (appeal_round K (A\<lparr>canRuleDispute := f\<rparr>) dispute period session sf disputeId account)
        (numberOfAppeals dispute) 0 ([], [])
      = appeal_loop (appeal_round K A dispute period session sf disputeId account)
        (numberOfAppeals dispute) 0 ([], [])" for period session
  proof (rule appeal_loop_cong, intro allI impI)
    fix r assume "0 \<le> r \<and> r \<le> numberOfAppeals dispute"
    show "appeal_round K (A\<lparr>canRuleDispute := f\<rparr>) dispute period session sf disputeId account r
        = appeal_round K A dispute period session sf disputeId account r"
      by (rule appeal_round_update_canRule) (use f in auto)
  qed
  show ?thesis
    unfolding getDataForDispute_def Let_def
    by (simp add: d sf loop)
qed

text \<open>
  C3, as the code has it. For a ledger dispute with \<open>numberOfAppeals = n\<close>, the view has
  \<open>appealJuror\<close> and \<open>appealRulings\<close> of length \<open>n + 1\<close>, and
  \<open>lastSession = firstSession + n\<close>. Every round \<open>r < n\<close> reports \<open>canRepartition\<close> and
  \<open>canExecute\<close> false, and a \<open>canRule\<close> that is not true. The last round reports
  \<open>canRepartition\<close> true iff the current session and period are not 0 and
  \<open>lastSession \<le> currentSession\<close>, the period is \<open>EXECUTE\<close> and the state is \<open>OPEN\<close>; and
  \<open>canExecute\<close> true iff the state is \<open>EXECUTABLE\<close>. The ledger is asked whether the
  account can rule only for the last round and only when the store holds draws for it:
  then \<open>canRule\<close> is the ledger's answer, and what the ledger would answer
  to any other question does not change the view.
\<close>

theorem appeal_rounds_of_view:
  assumes v: "getDataForDispute K A B tok st disputeId account = Resolved v"
    and d: "getDispute A disputeId = Resolved dispute"
    and p: "getPeriod A = Resolved period"
    and s: "getSession A = Resolved session"
    and sf: "try_store_fields (getDisputeData tok st (getContractAddress A) disputeId account)
               = Resolved sf"
    and n: "n = numberOfAppeals dispute"
  shows "length (v_appealJuror v) = n + 1 \<and> length (v_appealRulings v) = n + 1
     \<and> v_lastSession v = firstSession dispute + n
     \<and> (\<forall>r\<le>n. draws (v_appealJuror v ! r) = round_draws sf r)
     \<and> (\<forall>r<n. canRule (v_appealJuror v ! r) \<noteq> Some True
            \<and> \<not> canRepartition (v_appealRulings v ! r)
            \<and> \<not> canExecute (v_appealRulings v ! r))
     \<and> (canRepartition (v_appealRulings v ! n) \<longleftrightarrow>
           session \<noteq> 0 \<and> period \<noteq> 0 \<and> v_lastSession v \<le> session
           \<and> period = PERIOD_EXECUTE K \<and> state dispute = STATE_OPEN K)
     \<and> (canExecute (v_appealRulings v ! n) \<longleftrightarrow> state dispute = STATE_EXECUTABLE K)
     \<and> (round_draws sf n = [] \<longrightarrow> canRule (v_appealJuror v ! n) \<noteq> Some True)
     \<and> (round_draws sf n \<noteq> [] \<longrightarrow>
          (\<exists>b. canRuleDispute A disputeId (round_draws sf n) account = Resolved b
               \<and> canRule (v_appealJuror v ! n) = Some b))
     \<and> (\<forall>f. (round_draws sf n \<noteq> [] \<longrightarrow>
               f disputeId (round_draws sf n) account
               = canRuleDispute A disputeId (round_draws sf n) account) \<longrightarrow>
             getDataForDispute K (A\<lparr>canRuleDispute := f\<rparr>) B tok st disputeId account
             = Resolved v)"
proof -
  from getDataForDispute_Resolved [OF v] d p s sf obtain rounds where
    loop: "appeal_loop (appeal_round K A dispute period session sf disputeId account)
             (numberOfAppeals dispute) 0 ([], []) = Resolved rounds"
    and js: "v_appealJuror v = fst rounds" and rs: "v_appealRulings v = snd rounds"
    and ls: "v_lastSession v = firstSession dispute + numberOfAppeals dispute"
    by auto
  from appeal_loop_Resolved [OF loop] have
    len: "length (fst rounds) = Suc n \<and> length (snd rounds) = Suc n"
    and each: "\<forall>r. r \<le> n \<longrightarrow>
        appeal_round K A dispute period session sf disputeId account r
        = Resolved (fst rounds ! r, snd rounds ! r)"
    using n by simp_all
  have R: "draws (fst rounds ! r) = round_draws sf r
     \<and> (canRepartition (snd rounds ! r) \<longleftrightarrow> r = numberOfAppeals dispute
          \<and> session \<noteq> 0 \<and> period \<noteq> 0
          \<and> firstSession dispute + numberOfAppeals dispute \<le> session
          \<and> period = PERIOD_EXECUTE K \<and> state dispute = STATE_OPEN K)
     \<and> (canExecute (snd rounds ! r) \<longleftrightarrow> r = numberOfAppeals dispute
          \<and> state dispute = STATE_EXECUTABLE K)
     \<and> (r \<noteq> numberOfAppeals dispute \<or> round_draws sf r = [] \<longrightarrow>
          canRule (fst rounds ! r) = None)
     \<and> (r = numberOfAppeals dispute \<and> round_draws sf r \<noteq> [] \<longrightarrow>
          (\<exists>b. canRuleDispute A disputeId (round_draws sf r) account = Resolved b
               \<and> canRule (fst rounds ! r) = Some b))" if "r \<le> n" for r
  proof -
    from that each have "appeal_round K A dispute period session sf disputeId account r
        = Resolved (fst rounds ! r, snd rounds ! r)" by blast
    then show ?thesis by (rule appeal_round_Resolved)
  qed
  note Rn = R [of n, OF le_refl, folded n]
  have c1: "length (v_appealJuror v) = n + 1 \<and> length (v_appealRulings v) = n + 1"
    using len js rs by simp
  have c2: "v_lastSession v = firstSession dispute + n" using ls n by simp
  have c3: "\<forall>r\<le>n. draws (v_appealJuror v ! r) = round_draws sf r"
    using R js by simp
  have c4: "\<forall>r<n. canRule (v_appealJuror v ! r) \<noteq> Some True
            \<and> \<not> canRepartition (v_appealRulings v ! r)
            \<and> \<not> canExecute (v_appealRulings v ! r)"
  proof (intro allI impI)
    fix r assume "r < n"
    then have "r \<le> n" "r \<noteq> n" by simp_all
    with R [of r] n js rs show "canRule (v_appealJuror v ! r) \<noteq> Some True
            \<and> \<not> canRepartition (v_appealRulings v ! r)
            \<and> \<not> canExecute (v_appealRulings v ! r)" by simp
  qed
  have c5: "canRepartition (v_appealRulings v ! n) \<longleftrightarrow>
           session \<noteq> 0 \<and> period \<noteq> 0 \<and> v_lastSession v \<le> session
           \<and> period = PERIOD_EXECUTE K \<and> state dispute = STATE_OPEN K"
    using Rn rs c2 by simp
  have c6: "canExecute (v_appealRulings v ! n) \<longleftrightarrow> state dispute = STATE_EXECUTABLE K"
    using Rn rs by simp
  have c7: "round_draws sf n = [] \<longrightarrow> canRule (v_appealJuror v ! n) \<noteq> Some True"
    using Rn js by simp
  have c8: "round_draws sf n \<noteq> [] \<longrightarrow>
          (\<exists>b. canRuleDispute A disputeId (round_draws sf n) account = Resolved b
               \<and> canRule (v_appealJuror v ! n) = Some b)"
    using Rn js by simp
  have c9: "\<forall>f. (round_draws sf n \<noteq> [] \<longrightarrow>
               f disputeId (round_draws sf n) account
               = canRuleDispute A disputeId (round_draws sf n) account) \<longrightarrow>
             getDataForDispute K (A\<lparr>canRuleDispute := f\<rparr>) B tok st disputeId account
             = Resolved v"
    using getDataForDispute_update_canRule [OF d sf, of _ K B] v n by simp
  show ?thesis
    by (intro conjI c1 [THEN conjunct1] c1 [THEN conjunct2] c2 c3 c4 c5 c6 c7 c8 c9)
qed

lemma GET_dispute:
  "makeRequest tok ''GET'' (DisputeUri a d) None store_service st =
     (Resolved \<lparr>resp_body = dispute_json st a d, resp_status = 200\<rparr>, st)"
  by (simp add: makeRequest_def store_service_def)

lemma store_getDispute_eq: "store_getDispute tok st a d = Resolved (dispute_json st a d)"
  by (simp add: store_getDispute_def GET_dispute)

lemma example_getDisputeData:
  "try_store_fields (getDisputeData tok example_store ''0xK'' 5 ''0xA'')
     = Resolved example_store_fields"
  by (simp add: getDisputeData_def getUserProfile_eq store_getDispute_eq profile_json_def
      dispute_json_def example_store_def lodash_filter_def same_dispute_def
      read_store_fields_def example_store_fields_def)

lemma example_view:
  "\<exists>v. getDataForDispute kleros_constants example_arbitrator example_arbitrable tok
         example_store 5 ''0xA'' = Resolved v
       \<and> v_arbitrableContractAddress v = ''0xC'' \<and> v_numberOfAppeals v = 1
       \<and> v_appealCreatedAt v = [] \<and> v_appealDeadlines v = [] \<and> v_appealRuledAt v = []"
  using example_getDisputeData
  by (simp add: getDataForDispute_def example_arbitrator_def example_arbitrable_def
      example_dispute_def getContractByAddress_def getUserProfile_eq profile_json_def
      lodash_filter_def example_store_fields_def kleros_constants_def
      appeal_loop.simps appeal_round_def canRule_read_def round_draws_def array_get_def
      example_store_def)


theorem appeal_rounds_of_view_witness:
  "getDispute example_arbitrator 5 = Resolved example_dispute
   \<and> getPeriod example_arbitrator = Resolved 4
   \<and> getSession example_arbitrator = Resolved 11
   \<and> try_store_fields (getDisputeData None example_store
         (getContractAddress example_arbitrator) 5 ''0xA'') = Resolved example_store_fields
   \<and> numberOfAppeals example_dispute = 1
   \<and> pbind (getDataForDispute kleros_constants example_arbitrator example_arbitrable None
              example_store 5 ''0xA'')
        (\<lambda>v. Resolved (length (v_appealJuror v), v_lastSession v,
                canRepartition (v_appealRulings v ! 0), canExecute (v_appealRulings v ! 0),
                canRepartition (v_appealRulings v ! 1), canExecute (v_appealRulings v ! 1),
                canRule (v_appealJuror v ! 1)))
      = Resolved (2, 11, False, False, True, False, Some True)"
proof -
  have d: "getDispute example_arbitrator 5 = Resolved example_dispute"
    and p: "getPeriod example_arbitrator = Resolved 4"
    and s: "getSession example_arbitrator = Resolved 11"
    and a: "getContractAddress example_arbitrator = ''0xK''"
    by (simp_all add: example_arbitrator_def)
  have sf: "try_store_fields (getDisputeData None example_store
         (getContractAddress example_arbitrator) 5 ''0xA'') = Resolved example_store_fields"
    using example_getDisputeData by (simp add: a)
  have n: "1 = numberOfAppeals example_dispute"
    by (simp add: example_dispute_def)
  have dr: "round_draws example_store_fields 1 = [JNum 2, JNum 3]"
    by (simp add: round_draws_def example_store_fields_def array_get_def)
  have cr: "canRuleDispute example_arbitrator 5 [JNum 2, JNum 3] ''0xA'' = Resolved True"
    by (simp add: example_arbitrator_def)
  from example_view [of None] obtain v where
    v: "getDataForDispute kleros_constants example_arbitrator example_arbitrable None
          example_store 5 ''0xA'' = Resolved v" by auto
  note T = appeal_rounds_of_view [OF v d p s sf n]
  have t1: "length (v_appealJuror v) = 2" using T by simp
  have t2: "v_lastSession v = 11" using T by (simp add: example_dispute_def)
  have t3: "\<not> canRepartition (v_appealRulings v ! 0) \<and> \<not> canExecute (v_appealRulings v ! 0)"
    using T by simp
  have t4: "canRepartition (v_appealRulings v ! 1)"
    using T t2 by (simp add: kleros_constants_def example_dispute_def)
  have t5: "\<not> canExecute (v_appealRulings v ! 1)"
    using T by (simp add: kleros_constants_def example_dispute_def)
  have t6: "canRule (v_appealJuror v ! 1) = Some True"
    using T dr cr by auto
  show ?thesis
    using d p s sf n t1 t2 t3 t4 t5 t6 by (simp add: v)
qed

text \<open>
  C3 as stated fails: in session 0 the dispute 0 has \<open>lastSession = 0 \<le> 0\<close>, the period
  is \<open>EXECUTE\<close> and the state is \<open>OPEN\<close>, and \<open>canRepartition\<close> of its last round is false.
\<close>

theorem canRepartition_false_in_session_zero:
  "pbind (getDataForDispute kleros_constants session_zero_arbitrator example_arbitrable None
            example_store 0 ''0xJ'')
     (\<lambda>v. Resolved (v_lastSession v, v_disputeState v, map canRepartition (v_appealRulings v)))
     = Resolved (0, STATE_OPEN kleros_constants, [False])
   \<and> getSession session_zero_arbitrator = Resolved 0
   \<and> getPeriod session_zero_arbitrator = Resolved (PERIOD_EXECUTE kleros_constants)"
  by (simp add: getDataForDispute_def session_zero_arbitrator_def example_arbitrator_def
      example_arbitrable_def
      example_dispute_def getContractByAddress_def getUserProfile_eq profile_json_def
      lodash_filter_def kleros_constants_def getDisputeData_def initial_store_fields_def
      appeal_loop.simps appeal_round_def canRule_read_def round_draws_def array_get_def
      example_store_def)





section \<open>Properties of the event handlers\<close>

lemma store_updateDispute_eq:
  "store_updateDispute tok a d params st =
     (if truthy tok
      then (Resolved \<lparr>resp_body = JObj (current_dispute_record st a d ++ params),
                      resp_status = 201\<rparr>,
            st\<lparr>dispute_records :=
                 (dispute_records st)((a, d) \<mapsto> current_dispute_record st a d ++ params)\<rparr>)
      else (Rejected NO_AUTH_TOKEN, st))"
  by (simp add: store_updateDispute_def queueWriteRequest_def store_updateDispute_getBodyFn_def
      store_getDispute_eq dispute_json_def makeRequest_def store_service_def
      current_dispute_record_def split: option.splits)

lemma storeNewDisputeHandler_existing:
  assumes "dispute_records st (getContractAddress A, ev_disputeID event) \<noteq> None"
  shows "storeNewDisputeHandler K A B tok event account st = (Resolved (), st)"
  using assms
  by (auto simp: storeNewDisputeHandler_def Let_def store_getDispute_eq dispute_json_def)

lemma storeNewDisputeHandler_frame:
  assumes "storeNewDisputeHandler K A B tok event account st = (r, st1)"
  shows "profiles st1 = profiles st
     \<and> (\<forall>k. k \<noteq> (getContractAddress A, ev_disputeID event) \<longrightarrow>
            dispute_records st1 k = dispute_records st k)
     \<and> (r = Resolved () \<longrightarrow>
            dispute_records st1 (getContractAddress A, ev_disputeID event) \<noteq> None)"
proof (cases "dispute_records st (getContractAddress A, ev_disputeID event)")
  case (Some rec)
  then have "storeNewDisputeHandler K A B tok event account st = (Resolved (), st)"
    by (simp add: storeNewDisputeHandler_existing)
  with assms Some show ?thesis by simp
next
  case None
  show ?thesis
  proof (cases "getDataForDispute K A B tok st (ev_disputeID event) account")
    case (Resolved v)
    show ?thesis
    proof (cases "getData B (v_arbitrableContractAddress v)")
      case c: (Resolved c)
      show ?thesis
      proof (cases "getBlock A (ev_blockNumber event)")
        case b: (Resolved b)
        from assms None Resolved c b show ?thesis
          by (auto simp: storeNewDisputeHandler_def Let_def store_getDispute_eq dispute_json_def
              store_updateDispute_eq split: if_splits)
      next
        case (Rejected e)
        with assms None Resolved c show ?thesis
          by (auto simp: storeNewDisputeHandler_def Let_def store_getDispute_eq dispute_json_def)
      next
        case Pending
        with assms None Resolved c show ?thesis
          by (auto simp: storeNewDisputeHandler_def Let_def store_getDispute_eq dispute_json_def)
      qed
    next
      case (Rejected e)
      with assms None Resolved show ?thesis
        by (auto simp: storeNewDisputeHandler_def Let_def store_getDispute_eq dispute_json_def)
    next
      case Pending
      with assms None Resolved show ?thesis
        by (auto simp: storeNewDisputeHandler_def Let_def store_getDispute_eq dispute_json_def)
    qed
  next
    case (Rejected e)
    with assms None show ?thesis
      by (auto simp: storeNewDisputeHandler_def Let_def store_getDispute_eq dispute_json_def)
  next
    case Pending
    with assms None show ?thesis
      by (auto simp: storeNewDisputeHandler_def Let_def store_getDispute_eq dispute_json_def)
  qed
qed

text \<open>
  C1: when the store already holds a record for \<open>(arbitratorAddress, disputeId)\<close>, the
  creation handler writes nothing: the store is as it was. So when a delivery of a
  creation event has run to its end, the store holds a record for the dispute, no
  other record and no profile has changed, and delivering the event again is a no-op:
  there is one record for the dispute, the one the first delivery left.
\<close>

theorem dispute_creation_idempotent:
  "(dispute_records st (getContractAddress A, ev_disputeID event) \<noteq> None \<longrightarrow>
      storeNewDisputeHandler K A B tok event account st = (Resolved (), st))
   \<and> (storeNewDisputeHandler K A B tok event account st = (Resolved (), st1) \<longrightarrow>
        dispute_records st1 (getContractAddress A, ev_disputeID event) \<noteq> None
        \<and> profiles st1 = profiles st
        \<and> (\<forall>k. k \<noteq> (getContractAddress A, ev_disputeID event) \<longrightarrow>
               dispute_records st1 k = dispute_records st k)
        \<and> storeNewDisputeHandler K A B tok event account st1 = (Resolved (), st1))"
proof (intro conjI impI)
  assume "dispute_records st (getContractAddress A, ev_disputeID event) \<noteq> None"
  then show "storeNewDisputeHandler K A B tok event account st = (Resolved (), st)"
    by (rule storeNewDisputeHandler_existing)
next
  assume h: "storeNewDisputeHandler K A B tok event account st = (Resolved (), st1)"
  note F = storeNewDisputeHandler_frame [OF h]
  from F show rec: "dispute_records st1 (getContractAddress A, ev_disputeID event) \<noteq> None"
    by simp
  from F show "profiles st1 = profiles st" by simp
  from F show "\<forall>k. k \<noteq> (getContractAddress A, ev_disputeID event) \<longrightarrow>
               dispute_records st1 k = dispute_records st k" by simp
  from rec show "storeNewDisputeHandler K A B tok event account st1 = (Resolved (), st1)"
    by (rule storeNewDisputeHandler_existing)
qed

lemma example_first_delivery:
  "fst (storeNewDisputeHandler kleros_constants example_arbitrator example_arbitrable
          (Some (JStr ''t'')) creation_event ''0xA'' example_store) = Resolved ()"
proof -
  from example_view [of "Some (JStr ''t'')"] obtain v where
    v: "getDataForDispute kleros_constants example_arbitrator example_arbitrable
          (Some (JStr ''t'')) example_store 5 ''0xA'' = Resolved v"
    and a: "v_arbitrableContractAddress v = ''0xC''" by auto
  have g: "getContractAddress example_arbitrator = ''0xK''"
    "getBlock example_arbitrator 7 = Resolved 1500"
    by (simp_all add: example_arbitrator_def)
  have c: "getData example_arbitrable ''0xC''
             = Resolved \<lparr>partyA = ''0xA'', partyB = ''0xB'', contract_status = 3\<rparr>"
    by (simp add: example_arbitrable_def)
  have n: "dispute_json example_store ''0xK'' 5 = JNull"
    by (simp add: dispute_json_def example_store_def)
  show ?thesis
    by (simp add: storeNewDisputeHandler_def creation_event_def Let_def g store_getDispute_eq
        n v a c store_updateDispute_eq split: prod.splits)
qed

theorem dispute_creation_idempotent_witness:
  "dispute_records example_store (''0xK'', 5) = None
   \<and> fst (storeNewDisputeHandler kleros_constants example_arbitrator example_arbitrable
            (Some (JStr ''t'')) creation_event ''0xA'' example_store) = Resolved ()
   \<and> dispute_records
        (snd (storeNewDisputeHandler kleros_constants example_arbitrator example_arbitrable
               (Some (JStr ''t'')) creation_event ''0xA'' example_store)) (''0xK'', 5) \<noteq> None
   \<and> storeNewDisputeHandler kleros_constants example_arbitrator example_arbitrable
        (Some (JStr ''t'')) creation_event ''0xA''
        (snd (storeNewDisputeHandler kleros_constants example_arbitrator example_arbitrable
               (Some (JStr ''t'')) creation_event ''0xA'' example_store))
      = (Resolved (),
         snd (storeNewDisputeHandler kleros_constants example_arbitrator example_arbitrable
               (Some (JStr ''t'')) creation_event ''0xA'' example_store))"
proof -
  let ?H = "storeNewDisputeHandler kleros_constants example_arbitrator example_arbitrable
              (Some (JStr ''t'')) creation_event ''0xA''"
  have none: "dispute_records example_store (''0xK'', 5) = None"
    by (simp add: example_store_def)
  have first: "?H example_store = (Resolved (), snd (?H example_store))"
    using example_first_delivery by (simp add: prod_eq_iff)
  have key: "(getContractAddress example_arbitrator, ev_disputeID creation_event) = (''0xK'', 5)"
    by (simp add: example_arbitrator_def creation_event_def)
  note T = dispute_creation_idempotent [where K=kleros_constants and A=example_arbitrator
      and B=example_arbitrable and tok="Some (JStr ''t'')" and event=creation_event
      and account="''0xA''" and st=example_store and ?st1.0="snd (?H example_store)",
      THEN conjunct2, rule_format, OF first, unfolded key]
  show ?thesis
    using none example_first_delivery T by simp
qed

lemma findIndex_from_None: "findIndex_from i xs p = None \<longleftrightarrow> filter p xs = []"
  by (induction xs arbitrary: i) auto

lemma findIndex_from_Some:
  "findIndex_from i xs p = Some k \<Longrightarrow>
     i \<le> k \<and> k - i < length xs \<and> first (filter p xs) = Some (xs ! (k - i))"
proof (induction xs arbitrary: i)
  case Nil
  then show ?case by simp
next
  case (Cons x xs)
  show ?case
  proof (cases "p x")
    case True
    with Cons.prems show ?thesis by simp
  next
    case False
    with Cons.prems have "findIndex_from (Suc i) xs p = Some k" by simp
    from Cons.IH [OF this] False show ?thesis
      by (auto simp: Suc_diff_le)
  qed
qed

lemma tracked_pred: 
  "(\<lambda>dispute. field dispute ''disputeId'' = Some (JNum d)
       \<and> field dispute ''arbitratorAddress'' = Some (JStr a)) = same_dispute a d"
  by (auto simp: same_dispute_def fun_eq_iff)

lemma setUpUserProfile_existing:
  "profiles st u = Some p \<Longrightarrow> setUpUserProfile tok u st = (Resolved (JObj p), st)"
  by (simp add: setUpUserProfile_def getUserProfile_eq profile_json_def)

lemma empty_update_body:
  "Map.empty(''_id'' := None, ''created_at'' := None) ++ Map.empty(''address'' \<mapsto> JStr u)
     = [''address'' \<mapsto> JStr u]"
  by (simp add: fun_eq_iff map_add_def)

lemma setUpUserProfile_missing:
  assumes "profiles st u = None"
  shows "setUpUserProfile tok u st =
     (if truthy tok
      then (Resolved (response_json \<lparr>resp_body = JObj [''address'' \<mapsto> JStr u],
                                      resp_status = 200\<rparr>),
            st\<lparr>profiles := (profiles st)(u \<mapsto> [''address'' \<mapsto> JStr u])\<rparr>)
      else (Resolved (response_json \<lparr>resp_body = JNull, resp_status = 200\<rparr>), st))"
proof (cases "truthy tok")
  case True
  have w: "updateUserProfile tok u Map.empty st =
      (Resolved \<lparr>resp_body = JArr [JObj [''address'' \<mapsto> JStr u]], resp_status = 201\<rparr>,
       st\<lparr>profiles := (profiles st)(u \<mapsto> [''address'' \<mapsto> JStr u])\<rparr>)"
    using True assms
    by (simp add: updateUserProfile_def queueWriteRequest_def updateUserProfile_body
        POST_profile empty_update_body)
  show ?thesis
    using True assms
    by (simp add: setUpUserProfile_def getUserProfile_eq profile_json_def w
        queueReadRequest_def GET_profile)
next
  case False
  have w: "updateUserProfile tok u Map.empty st = (Rejected NO_AUTH_TOKEN, st)"
    using False
    by (simp add: updateUserProfile_def queueWriteRequest_def updateUserProfile_body
        makeRequest_def)
  show ?thesis
    using False assms
    by (simp add: setUpUserProfile_def getUserProfile_eq profile_json_def w
        queueReadRequest_def GET_profile)
qed

lemma token_shift_untracked:
  assumes "profiles st account = Some p"
    and "filter (same_dispute (getContractAddress A) (ev_disputeID event))
           (elements (p ''disputes'')) = []"
  shows "storeTokensMovedForJuror A tok event account st = (Resolved (), st)"
  using assms
  by (simp add: storeTokensMovedForJuror_def Let_def setUpUserProfile_existing
      lodash_findIndex_def tracked_pred findIndex_from_None [THEN iffD2])

lemma token_shift_no_profile:
  assumes "profiles st account = None" and "ev_account event = account"
  shows "storeTokensMovedForJuror A tok event account st =
     (Resolved (),
      if truthy tok then st\<lparr>profiles := (profiles st)(account \<mapsto> [''address'' \<mapsto> JStr account])\<rparr>
      else st)"
  using assms
  by (simp add: storeTokensMovedForJuror_def Let_def setUpUserProfile_missing
      lodash_findIndex_def response_json_def)

lemma bit_length_le: "n < 2 ^ k \<Longrightarrow> bit_length n \<le> k"
proof (induction k arbitrary: n)
  case 0
  then show ?case by (simp add: bit_length.simps)
next
  case (Suc k)
  show ?case
  proof (cases "n = 0")
    case True
    then show ?thesis by (simp add: bit_length.simps)
  next
    case False
    from Suc.prems have "n div 2 < 2 ^ k" by simp
    from Suc.IH [OF this] False show ?thesis by (subst bit_length.simps) simp
  qed
qed

lemma bit_length_eq: "2 ^ k \<le> n \<Longrightarrow> n < 2 ^ Suc k \<Longrightarrow> bit_length n = Suc k"
proof (induction k arbitrary: n)
  case 0
  then have "n = 1" by simp
  then show ?case by (simp add: bit_length.simps)
next
  case (Suc k)
  from Suc.prems have "2 ^ k \<le> n div 2" and "n div 2 < 2 ^ Suc k" and "n \<noteq> 0" by auto
  from Suc.IH [OF this(1,2)] this(3) show ?case by (subst bit_length.simps) simp
qed

lemma round_double_safe: "\<bar>s\<bar> < 2 ^ 53 \<Longrightarrow> round_double s = s"
proof -
  assume "\<bar>s\<bar> < 2 ^ 53"
  then have "nat \<bar>s\<bar> < 2 ^ 53" by (simp add: nat_less_iff)
  from bit_length_le [OF this] show ?thesis by (simp add: round_double_def)
qed

lemma shifted_safe:
  assumes a: "safe_integer amount" and s: "safe_integer (n + amount)"
  shows "shifted n amount = n + amount"
proof -
  have "(2::int) ^ 53 \<le> 2 ^ 1024" by simp
  with s have fin: "\<bar>n + amount\<bar> < 2 ^ 1024" unfolding safe_integer_def by linarith
  from a have "toNumber amount = amount"
    by (simp add: toNumber_def safe_integer_def round_double_safe)
  moreover from s have "js_add n amount = n + amount"
    by (simp add: js_add_def safe_integer_def round_double_safe)
  ultimately show ?thesis using fin by (simp add: shifted_def js_number_def)
qed

lemma token_shift_tracked:
  assumes p: "profiles st account = Some p"
    and acc: "ev_account event = account"
    and tok: "truthy tok"
    and dp: "first (filter (same_dispute (getContractAddress A) (ev_disputeID event))
                (elements (p ''disputes''))) = Some dp"
  shows "storeTokensMovedForJuror A tok event account st =
     (Resolved (),
      st\<lparr>profiles := (profiles st)(account \<mapsto>
          p(''disputes'' \<mapsto> JArr (upsert (same_dispute (getContractAddress A) (ev_disputeID event))
             (JObj ((as_obj dp)(''_id'' := None)
                     ++ [''netPNK'' \<mapsto> js_number (js_add (number_or_zero (field dp ''netPNK''))
                                                   (toNumber (ev_amount event))),
                         ''disputeId'' \<mapsto> JNum (ev_disputeID event),
                         ''arbitratorAddress'' \<mapsto> JStr (getContractAddress A)]))
             (elements (p ''disputes'')))))\<rparr>)"
proof -
  let ?a = "getContractAddress A" and ?d = "ev_disputeID event"
  from dp have ne: "filter (same_dispute ?a ?d) (elements (p ''disputes'')) \<noteq> []"
    by (cases "filter (same_dispute ?a ?d) (elements (p ''disputes''))") auto
  then obtain k where k: "findIndex_from 0 (elements (p ''disputes'')) (same_dispute ?a ?d) = Some k"
    using findIndex_from_None [of 0 "elements (p ''disputes'')" "same_dispute ?a ?d"] by auto
  from findIndex_from_Some [OF k] dp have at: "elements (p ''disputes'') ! k = dp" by simp
  have cur: "current_dispute_profile st account ?a ?d = as_obj dp"
    using p dp by (simp add: current_dispute_profile_def profile_json_def lodash_filter_def)
  show ?thesis
    using acc
    by (simp add: storeTokensMovedForJuror_def Let_def setUpUserProfile_existing [OF p]
        lodash_findIndex_def tracked_pred k at prod_eq_iff
        updateDisputeProfile_eq [OF tok p] cur
        updateDisputeProfile_def queueWriteRequest_def updateDisputeProfile_body [OF p]
        POST_dispute_profile [OF tok] current_user_profile_def p Let_def)
qed

lemma token_shift_tracked_no_token:
  assumes p: "profiles st account = Some p"
    and acc: "ev_account event = account"
    and tok: "\<not> truthy tok"
    and dp: "first (filter (same_dispute (getContractAddress A) (ev_disputeID event))
                (elements (p ''disputes''))) = Some dp"
  shows "storeTokensMovedForJuror A tok event account st = (Rejected NO_AUTH_TOKEN, st)"
proof -
  let ?a = "getContractAddress A" and ?d = "ev_disputeID event"
  from dp have ne: "filter (same_dispute ?a ?d) (elements (p ''disputes'')) \<noteq> []"
    by (cases "filter (same_dispute ?a ?d) (elements (p ''disputes''))") auto
  then obtain k where k: "findIndex_from 0 (elements (p ''disputes'')) (same_dispute ?a ?d) = Some k"
    using findIndex_from_None [of 0 "elements (p ''disputes'')" "same_dispute ?a ?d"] by auto
  show ?thesis
    using acc tok
    by (simp add: storeTokensMovedForJuror_def Let_def setUpUserProfile_existing [OF p]
        lodash_findIndex_def tracked_pred k
        updateDisputeProfile_def queueWriteRequest_def updateDisputeProfile_body [OF p]
        makeRequest_def)
qed

lemma has_dispute_profile_iff:
  "has_dispute_profile st u a d \<longleftrightarrow>
     (\<exists>p dp. profiles st u = Some p
        \<and> first (filter (same_dispute a d) (elements (p ''disputes''))) = Some dp)"
proof (cases "profiles st u")
  case None
  then show ?thesis by (simp add: has_dispute_profile_def profile_json_def lodash_filter_def)
next
  case (Some p)
  then show ?thesis
    by (cases "filter (same_dispute a d) (elements (p ''disputes''))")
       (simp_all add: has_dispute_profile_def profile_json_def lodash_filter_def)
qed

lemma first_Some_filter:
  "first (filter q xs) = Some x \<Longrightarrow> q x \<and> filter q xs \<noteq> []"
proof -
  assume a: "first (filter q xs) = Some x"
  then have "filter q xs \<noteq> []" by (cases "filter q xs") auto
  moreover from a have "x \<in> set (filter q xs)" by (cases "filter q xs") auto
  ultimately show ?thesis by simp
qed

lemma stored_netPNK_eq:
  assumes "profiles st u = Some p"
    and "first (filter (same_dispute a d) (elements (p ''disputes''))) = Some dp"
  shows "stored_netPNK st u a d = number_or_zero (field dp ''netPNK'')"
proof -
  from first_Some_filter [OF assms(2)] obtain m where "dp = JObj m"
    by (cases dp) (auto simp: same_dispute_def)
  with assms show ?thesis
    by (simp add: stored_netPNK_def current_dispute_profile_def profile_json_def
        lodash_filter_def)
qed

lemma token_shift_step:
  assumes tok: "truthy tok"
    and h: "has_dispute_profile st account (getContractAddress A) (ev_disputeID event)"
    and acc: "ev_account event = account"
  shows "has_dispute_profile (snd (storeTokensMovedForJuror A tok event account st)) account
           (getContractAddress A) (ev_disputeID event)
       \<and> stored_netPNK (snd (storeTokensMovedForJuror A tok event account st)) account
           (getContractAddress A) (ev_disputeID event)
         = shifted (stored_netPNK st account (getContractAddress A) (ev_disputeID event))
             (ev_amount event)"
proof -
  let ?a = "getContractAddress A" and ?d = "ev_disputeID event"
  from h obtain p dp where p: "profiles st account = Some p"
    and dp: "first (filter (same_dispute ?a ?d) (elements (p ''disputes''))) = Some dp"
    by (auto simp: has_dispute_profile_iff)
  define w where "w = JObj ((as_obj dp)(''_id'' := None)
                     ++ [''netPNK'' \<mapsto> js_number (js_add (number_or_zero (field dp ''netPNK''))
                                                   (toNumber (ev_amount event))),
                         ''disputeId'' \<mapsto> JNum ?d,
                         ''arbitratorAddress'' \<mapsto> JStr ?a])"
  define ds where "ds = upsert (same_dispute ?a ?d) w (elements (p ''disputes''))"
  define st' where "st' = st\<lparr>profiles := (profiles st)(account \<mapsto> p(''disputes'' \<mapsto> JArr ds))\<rparr>"
  have run: "snd (storeTokensMovedForJuror A tok event account st) = st'"
    by (simp add: token_shift_tracked [OF p acc tok dp] st'_def ds_def w_def)
  have same: "same_dispute ?a ?d w" by (simp add: same_dispute_def w_def)
  have new: "first (filter (same_dispute ?a ?d) ds) = Some w"
    unfolding ds_def by (rule first_filter_upsert [where p="same_dispute ?a ?d", OF same])
  have p': "profiles st' account = Some (p(''disputes'' \<mapsto> JArr ds))"
    by (simp add: st'_def)
  have new': "first (filter (same_dispute ?a ?d)
                (elements ((p(''disputes'' \<mapsto> JArr ds)) ''disputes''))) = Some w"
    using new by simp
  have has: "has_dispute_profile st' account ?a ?d"
    using first_Some_filter [OF new]
    by (simp add: has_dispute_profile_def profile_json_def p' lodash_filter_def)
  have "stored_netPNK st' account ?a ?d = number_or_zero (field w ''netPNK'')"
    by (rule stored_netPNK_eq [OF p' new'])
  also have "\<dots> = shifted (number_or_zero (field dp ''netPNK'')) (ev_amount event)"
    by (simp add: w_def shifted_def)
  also have "\<dots> = shifted (stored_netPNK st account ?a ?d) (ev_amount event)"
    by (simp add: stored_netPNK_eq [OF p dp])
  finally show ?thesis using has by (simp add: run)
qed

lemma deliver_token_shifts_fold:
  assumes tok: "truthy tok"
  shows "has_dispute_profile st account (getContractAddress A) d \<Longrightarrow>
     \<forall>e\<in>set events. ev_account e = account \<and> ev_disputeID e = d \<Longrightarrow>
     has_dispute_profile (deliver_token_shifts A tok events account st) account
        (getContractAddress A) d
     \<and> stored_netPNK (deliver_token_shifts A tok events account st) account
          (getContractAddress A) d
       = foldl shifted (stored_netPNK st account (getContractAddress A) d)
           (map ev_amount events)"
proof (induction events arbitrary: st)
  case Nil
  then show ?case by simp
next
  case (Cons e es)
  let ?st1 = "snd (storeTokensMovedForJuror A tok e account st)"
  from Cons.prems(2) have e1: "ev_account e = account" and e2: "ev_disputeID e = d"
    and rest: "\<forall>e\<in>set es. ev_account e = account \<and> ev_disputeID e = d"
    by simp_all
  from Cons.prems(1) have h: "has_dispute_profile st account (getContractAddress A)
      (ev_disputeID e)" unfolding e2 .
  note S = token_shift_step [OF tok h e1, unfolded e2]
  note IH = Cons.IH [OF S [THEN conjunct1] rest]
  have run: "deliver_token_shifts A tok (e # es) account st
      = deliver_token_shifts A tok es account ?st1"
    by simp
  show ?case
    unfolding run using IH S [THEN conjunct2] by simp
qed

lemma foldl_shifted_exact:
  "\<forall>a\<in>set amounts. safe_integer a \<Longrightarrow>
   \<forall>k\<le>length amounts. safe_integer (n + sum_list (take k amounts)) \<Longrightarrow>
   foldl shifted n amounts = n + sum_list amounts"
proof (induction amounts arbitrary: n)
  case Nil
  then show ?case by simp
next
  case (Cons a as)
  from Cons.prems(1) have a: "safe_integer a" and rest: "\<forall>a\<in>set as. safe_integer a"
    by simp_all
  from Cons.prems(2) [rule_format, of 1] have s: "safe_integer (n + a)" by simp
  have sums: "\<forall>k\<le>length as. safe_integer (n + a + sum_list (take k as))"
  proof (intro allI impI)
    fix k assume "k \<le> length as"
    with Cons.prems(2) [rule_format, of "Suc k"]
    show "safe_integer (n + a + sum_list (take k as))" by (simp add: add.assoc)
  qed
  from Cons.IH [OF rest sums] shifted_safe [OF a s] show ?case by simp
qed

text \<open>
  C4, as the code has it, for token-shift events whose account is the bound account.
  With a token set and a dispute profile for \<open>(disputeId, arbitratorAddress)\<close> in the
  user's profile, each event adds its amount, as a JavaScript number, to that profile's
  \<open>netPNK\<close>: after a sequence of events the stored \<open>netPNK\<close> is the prior one with the
  amounts added one after the other in the arithmetic of doubles, and that is the prior
  one plus the sum of the amounts as long as the amounts and the sums on the way are
  safe integers. With no token the handler of such an event fails with the auth error
  and the store is as it was. When the user has a profile with no such dispute profile,
  the event is ignored: the store is as it was. When the user has no profile at all, no
  dispute profile is created, but with a token set \<open>setUpUserProfile\<close> sets up a user
  profile holding the address; with no token the store is as it was.
\<close>

theorem token_shift_accounting:
  "(truthy tok \<and> has_dispute_profile st account (getContractAddress A) d
      \<and> (\<forall>e\<in>set events. ev_account e = account \<and> ev_disputeID e = d) \<longrightarrow>
      has_dispute_profile (deliver_token_shifts A tok events account st) account
        (getContractAddress A) d
      \<and> stored_netPNK (deliver_token_shifts A tok events account st) account
          (getContractAddress A) d
        = foldl shifted (stored_netPNK st account (getContractAddress A) d)
            (map ev_amount events)
      \<and> ((\<forall>e\<in>set events. safe_integer (ev_amount e))
           \<and> (\<forall>k\<le>length events.
                 safe_integer (stored_netPNK st account (getContractAddress A) d
                               + sum_list (map ev_amount (take k events)))) \<longrightarrow>
          stored_netPNK (deliver_token_shifts A tok events account st) account
            (getContractAddress A) d
          = stored_netPNK st account (getContractAddress A) d
            + sum_list (map ev_amount events)))
   \<and> (\<not> truthy tok \<and> ev_account event = account
        \<and> has_dispute_profile st account (getContractAddress A) (ev_disputeID event) \<longrightarrow>
        storeTokensMovedForJuror A tok event account st = (Rejected NO_AUTH_TOKEN, st))
   \<and> (ev_account event = account \<and> profiles st account \<noteq> None
        \<and> \<not> has_dispute_profile st account (getContractAddress A) (ev_disputeID event) \<longrightarrow>
        storeTokensMovedForJuror A tok event account st = (Resolved (), st))
   \<and> (ev_account event = account \<and> profiles st account = None \<longrightarrow>
        storeTokensMovedForJuror A tok event account st =
          (Resolved (),
           if truthy tok
           then st\<lparr>profiles := (profiles st)(account \<mapsto> [''address'' \<mapsto> JStr account])\<rparr>
           else st))"
proof -
  let ?a = "getContractAddress A"
  let ?after = "deliver_token_shifts A tok events account st"
  have c1: "truthy tok \<and> has_dispute_profile st account ?a d
      \<and> (\<forall>e\<in>set events. ev_account e = account \<and> ev_disputeID e = d) \<longrightarrow>
      has_dispute_profile ?after account ?a d
      \<and> stored_netPNK ?after account ?a d
        = foldl shifted (stored_netPNK st account ?a d) (map ev_amount events)
      \<and> ((\<forall>e\<in>set events. safe_integer (ev_amount e))
           \<and> (\<forall>k\<le>length events.
                 safe_integer (stored_netPNK st account ?a d
                               + sum_list (map ev_amount (take k events)))) \<longrightarrow>
          stored_netPNK ?after account ?a d
          = stored_netPNK st account ?a d + sum_list (map ev_amount events))"
  proof (rule impI)
    assume a: "truthy tok \<and> has_dispute_profile st account ?a d
      \<and> (\<forall>e\<in>set events. ev_account e = account \<and> ev_disputeID e = d)"
    then have tok: "truthy tok" and h: "has_dispute_profile st account ?a d"
      and ev: "\<forall>e\<in>set events. ev_account e = account \<and> ev_disputeID e = d"
      by simp_all
    note F = deliver_token_shifts_fold [OF tok h ev]
    have exact: "(\<forall>e\<in>set events. safe_integer (ev_amount e))
           \<and> (\<forall>k\<le>length events.
                 safe_integer (stored_netPNK st account ?a d
                               + sum_list (map ev_amount (take k events)))) \<longrightarrow>
          stored_netPNK ?after account ?a d
          = stored_netPNK st account ?a d + sum_list (map ev_amount events)"
    proof (rule impI)
      assume s: "(\<forall>e\<in>set events. safe_integer (ev_amount e))
           \<and> (\<forall>k\<le>length events.
                 safe_integer (stored_netPNK st account ?a d
                               + sum_list (map ev_amount (take k events))))"
      then have s1: "\<forall>a\<in>set (map ev_amount events). safe_integer a" by simp
      from s have s2: "\<forall>k\<le>length (map ev_amount events).
          safe_integer (stored_netPNK st account ?a d
                        + sum_list (take k (map ev_amount events)))"
        by (simp add: take_map)
      from foldl_shifted_exact [OF s1 s2] F [THEN conjunct2]
      show "stored_netPNK ?after account ?a d
          = stored_netPNK st account ?a d + sum_list (map ev_amount events)" by simp
    qed
    show "has_dispute_profile ?after account ?a d
      \<and> stored_netPNK ?after account ?a d
        = foldl shifted (stored_netPNK st account ?a d) (map ev_amount events)
      \<and> ((\<forall>e\<in>set events. safe_integer (ev_amount e))
           \<and> (\<forall>k\<le>length events.
                 safe_integer (stored_netPNK st account ?a d
                               + sum_list (map ev_amount (take k events)))) \<longrightarrow>
          stored_netPNK ?after account ?a d
          = stored_netPNK st account ?a d + sum_list (map ev_amount events))"
      by (rule conjI [OF F [THEN conjunct1] conjI [OF F [THEN conjunct2] exact]])
  qed
  have c2: "\<not> truthy tok \<and> ev_account event = account
        \<and> has_dispute_profile st account ?a (ev_disputeID event) \<longrightarrow>
        storeTokensMovedForJuror A tok event account st = (Rejected NO_AUTH_TOKEN, st)"
  proof (rule impI)
    assume a: "\<not> truthy tok \<and> ev_account event = account
        \<and> has_dispute_profile st account ?a (ev_disputeID event)"
    then obtain p dp where p: "profiles st account = Some p"
      and dp: "first (filter (same_dispute ?a (ev_disputeID event))
                 (elements (p ''disputes''))) = Some dp"
      by (auto simp: has_dispute_profile_iff)
    from a have acc: "ev_account event = account" and tok: "\<not> truthy tok" by simp_all
    show "storeTokensMovedForJuror A tok event account st = (Rejected NO_AUTH_TOKEN, st)"
      by (rule token_shift_tracked_no_token [OF p acc tok dp])
  qed
  have c3: "ev_account event = account \<and> profiles st account \<noteq> None
        \<and> \<not> has_dispute_profile st account ?a (ev_disputeID event) \<longrightarrow>
        storeTokensMovedForJuror A tok event account st = (Resolved (), st)"
  proof (rule impI)
    assume a: "ev_account event = account \<and> profiles st account \<noteq> None
        \<and> \<not> has_dispute_profile st account ?a (ev_disputeID event)"
    then obtain p where p: "profiles st account = Some p" by auto
    with a have "filter (same_dispute ?a (ev_disputeID event)) (elements (p ''disputes'')) = []"
      by (simp add: has_dispute_profile_def profile_json_def lodash_filter_def)
    with p show "storeTokensMovedForJuror A tok event account st = (Resolved (), st)"
      by (rule token_shift_untracked)
  qed
  have c4: "ev_account event = account \<and> profiles st account = None \<longrightarrow>
        storeTokensMovedForJuror A tok event account st =
          (Resolved (),
           if truthy tok
           then st\<lparr>profiles := (profiles st)(account \<mapsto> [''address'' \<mapsto> JStr account])\<rparr>
           else st)"
    by (simp add: token_shift_no_profile)
  show ?thesis
    by (rule conjI [OF c1 conjI [OF c2 conjI [OF c3 c4]]])
qed

theorem token_shift_accounting_witness:
  "has_dispute_profile example_store ''0xA'' ''0xK'' 5
   \<and> stored_netPNK example_store ''0xA'' ''0xK'' 5 = 0
   \<and> stored_netPNK
        (deliver_token_shifts example_arbitrator (Some (JStr ''t''))
           [token_shift 5 ''0xA'' 10, token_shift 5 ''0xA'' (- 3), token_shift 5 ''0xA'' 5]
           ''0xA'' example_store) ''0xA'' ''0xK'' 5 = 12
   \<and> storeTokensMovedForJuror example_arbitrator None (token_shift 5 ''0xA'' 10)
        ''0xA'' example_store = (Rejected NO_AUTH_TOKEN, example_store)
   \<and> profiles example_store ''0xA'' \<noteq> None
   \<and> \<not> has_dispute_profile example_store ''0xA'' ''0xK'' 6
   \<and> storeTokensMovedForJuror example_arbitrator (Some (JStr ''t'')) (token_shift 6 ''0xA'' 10)
        ''0xA'' example_store = (Resolved (), example_store)
   \<and> profiles example_store ''0xJ'' = None
   \<and> storeTokensMovedForJuror example_arbitrator (Some (JStr ''t'')) (token_shift 5 ''0xJ'' 10)
        ''0xJ'' example_store
      = (Resolved (),
         example_store\<lparr>profiles := (profiles example_store)
                                     (''0xJ'' \<mapsto> [''address'' \<mapsto> JStr ''0xJ''])\<rparr>)
   \<and> storeTokensMovedForJuror example_arbitrator None (token_shift 5 ''0xJ'' 10)
        ''0xJ'' example_store = (Resolved (), example_store)"
proof -
  let ?events = "[token_shift 5 ''0xA'' 10, token_shift 5 ''0xA'' (- 3), token_shift 5 ''0xA'' 5]"
  have a: "getContractAddress example_arbitrator = ''0xK''"
    by (simp add: example_arbitrator_def)
  have h: "has_dispute_profile example_store ''0xA'' ''0xK'' 5"
    by (simp add: has_dispute_profile_def example_store_def profile_json_def lodash_filter_def
        same_dispute_def)
  have z: "stored_netPNK example_store ''0xA'' ''0xK'' 5 = 0"
    by (simp add: stored_netPNK_def current_dispute_profile_def example_store_def
        profile_json_def lodash_filter_def same_dispute_def)
  have nh: "\<not> has_dispute_profile example_store ''0xA'' ''0xK'' 6"
    by (simp add: has_dispute_profile_def example_store_def profile_json_def lodash_filter_def
        same_dispute_def)
  have pa: "profiles example_store ''0xA'' \<noteq> None" and pj: "profiles example_store ''0xJ'' = None"
    by (simp_all add: example_store_def)
  have ev: "\<forall>e\<in>set ?events. ev_account e = ''0xA'' \<and> ev_disputeID e = 5"
    by (simp add: token_shift_def)
  have safe: "\<forall>e\<in>set ?events. safe_integer (ev_amount e)"
    by (simp add: token_shift_def safe_integer_def)
  have sums: "\<forall>k\<le>length ?events.
      safe_integer (stored_netPNK example_store ''0xA'' ''0xK'' 5
                    + sum_list (map ev_amount (take k ?events)))"
    unfolding z by (auto simp: token_shift_def safe_integer_def take_Cons')
  note T1 = token_shift_accounting [where tok="Some (JStr ''t'')" and st=example_store
      and account="''0xA''" and A=example_arbitrator and d=5 and events="?events"
      and event="token_shift 6 ''0xA'' 10", unfolded a]
  have t: "truthy (Some (JStr ''t''))" by simp
  note C1 = T1 [THEN conjunct1, THEN mp, OF conjI [OF t conjI [OF h ev]]]
  note EQ = C1 [THEN conjunct2, THEN conjunct2, THEN mp, OF conjI [OF safe sums]]
  have sum: "sum_list (map ev_amount ?events) = 12"
    by (simp add: token_shift_def)
  have twelve: "(0::int) + 12 = 12" by simp
  note s = EQ [unfolded z sum twelve]
  have u: "storeTokensMovedForJuror example_arbitrator (Some (JStr ''t''))
        (token_shift 6 ''0xA'' 10) ''0xA'' example_store = (Resolved (), example_store)"
    using T1 [THEN conjunct2, THEN conjunct2, THEN conjunct1] pa nh by (simp add: token_shift_def)
  note T2 = token_shift_accounting [where tok=None and st=example_store
      and account="''0xA''" and A=example_arbitrator and event="token_shift 5 ''0xA'' 10",
      unfolded a]
  have nt: "storeTokensMovedForJuror example_arbitrator None (token_shift 5 ''0xA'' 10)
        ''0xA'' example_store = (Rejected NO_AUTH_TOKEN, example_store)"
    using T2 [THEN conjunct2, THEN conjunct1] h by (simp add: token_shift_def)
  note T3 = token_shift_accounting [where tok="Some (JStr ''t'')" and st=example_store
      and account="''0xJ''" and A=example_arbitrator and event="token_shift 5 ''0xJ'' 10"]
  have n1: "storeTokensMovedForJuror example_arbitrator (Some (JStr ''t''))
        (token_shift 5 ''0xJ'' 10) ''0xJ'' example_store
      = (Resolved (),
         example_store\<lparr>profiles := (profiles example_store)
                                     (''0xJ'' \<mapsto> [''address'' \<mapsto> JStr ''0xJ''])\<rparr>)"
    using T3 [THEN conjunct2, THEN conjunct2, THEN conjunct2] pj by (simp add: token_shift_def)
  note T4 = token_shift_accounting [where tok=None and st=example_store
      and account="''0xJ''" and A=example_arbitrator and event="token_shift 5 ''0xJ'' 10"]
  have n2: "storeTokensMovedForJuror example_arbitrator None (token_shift 5 ''0xJ'' 10)
        ''0xJ'' example_store = (Resolved (), example_store)"
    using T4 [THEN conjunct2, THEN conjunct2, THEN conjunct2] pj by (simp add: token_shift_def)
  show ?thesis
    by (intro conjI h z s nt pa nh u pj n1 n2)
qed

text \<open>
  C4 as stated fails in three places. The account \<open>0xJ\<close> has no profile, hence no
  dispute profile for dispute 5, and after the event the store holds a profile for it.
  On a stored \<open>netPNK\<close> of \<open>2 ^ 53\<close> an event of amount 1 leaves \<open>2 ^ 53\<close>, the double
  nearest to the sum. And with no token the event of a tracked dispute ends in the auth
  error, the \<open>netPNK\<close> as it was.
\<close>

theorem token_shift_not_as_stated:
  "profiles example_store ''0xJ'' = None
   \<and> \<not> has_dispute_profile example_store ''0xJ'' ''0xK'' 5
   \<and> profiles (snd (storeTokensMovedForJuror example_arbitrator (Some (JStr ''t''))
                      (token_shift 5 ''0xJ'' 10) ''0xJ'' example_store)) ''0xJ''
       = Some [''address'' \<mapsto> JStr ''0xJ'']
   \<and> has_dispute_profile large_netPNK_store ''0xA'' ''0xK'' 5
   \<and> stored_netPNK large_netPNK_store ''0xA'' ''0xK'' 5 = 9007199254740992
   \<and> stored_netPNK (snd (storeTokensMovedForJuror example_arbitrator (Some (JStr ''t''))
                           (token_shift 5 ''0xA'' 1) ''0xA'' large_netPNK_store))
        ''0xA'' ''0xK'' 5 = 9007199254740992
   \<and> has_dispute_profile example_store ''0xA'' ''0xK'' 5
   \<and> storeTokensMovedForJuror example_arbitrator None (token_shift 5 ''0xA'' 10)
        ''0xA'' example_store = (Rejected NO_AUTH_TOKEN, example_store)"
proof -
  have pj: "profiles example_store ''0xJ'' = None"
    by (simp add: example_store_def)
  have nh: "\<not> has_dispute_profile example_store ''0xJ'' ''0xK'' 5"
    by (simp add: has_dispute_profile_def example_store_def profile_json_def lodash_filter_def)
  have e: "ev_account (token_shift 5 ''0xJ'' 10) = ''0xJ''"
    by (simp add: token_shift_def)
  have c1: "profiles (snd (storeTokensMovedForJuror example_arbitrator (Some (JStr ''t''))
                      (token_shift 5 ''0xJ'' 10) ''0xJ'' example_store)) ''0xJ''
       = Some [''address'' \<mapsto> JStr ''0xJ'']"
    by (simp add: token_shift_no_profile [OF pj e])
  have a: "getContractAddress example_arbitrator = ''0xK''"
    by (simp add: example_arbitrator_def)
  have hl: "has_dispute_profile large_netPNK_store ''0xA'' ''0xK'' 5"
    by (simp add: has_dispute_profile_def large_netPNK_store_def profile_json_def
        lodash_filter_def same_dispute_def)
  have zl: "stored_netPNK large_netPNK_store ''0xA'' ''0xK'' 5 = 9007199254740992"
    by (simp add: stored_netPNK_def current_dispute_profile_def large_netPNK_store_def
        profile_json_def lodash_filter_def same_dispute_def)
  have bits: "bit_length (nat \<bar>9007199254740993\<bar>) = Suc 53"
    by (rule bit_length_eq) simp_all
  have one: "toNumber 1 = 1"
    by (simp add: toNumber_def round_double_safe)
  have sh: "shifted 9007199254740992 1 = 9007199254740992"
    using bits by (simp add: shifted_def one js_add_def js_number_def round_double_def)
  have t: "truthy (Some (JStr ''t''))" by simp
  have hl': "has_dispute_profile large_netPNK_store ''0xA'' (getContractAddress example_arbitrator)
               (ev_disputeID (token_shift 5 ''0xA'' 1))"
    using hl by (simp add: a token_shift_def)
  have el: "ev_account (token_shift 5 ''0xA'' 1) = ''0xA''"
    by (simp add: token_shift_def)
  have d5: "ev_disputeID (token_shift 5 ''0xA'' 1) = 5" "ev_amount (token_shift 5 ''0xA'' 1) = 1"
    by (simp_all add: token_shift_def)
  note S = token_shift_step [OF t hl' el, THEN conjunct2, unfolded a d5 zl sh]
  have h: "has_dispute_profile example_store ''0xA'' ''0xK'' 5"
    by (simp add: has_dispute_profile_def example_store_def profile_json_def lodash_filter_def
        same_dispute_def)
  from h obtain p dp where p: "profiles example_store ''0xA'' = Some p"
    and dp: "first (filter (same_dispute ''0xK'' 5) (elements (p ''disputes''))) = Some dp"
    by (auto simp: has_dispute_profile_iff)
  have dp': "first (filter (same_dispute (getContractAddress example_arbitrator)
                      (ev_disputeID (token_shift 5 ''0xA'' 10)))
               (elements (p ''disputes''))) = Some dp"
    using dp by (simp add: a token_shift_def)
  have ea: "ev_account (token_shift 5 ''0xA'' 10) = ''0xA''"
    by (simp add: token_shift_def)
  have nt: "\<not> truthy None" by simp
  note N = token_shift_tracked_no_token [OF p ea nt dp']
  show ?thesis
    by (intro conjI pj nh c1 hl zl S h N)
qed

lemma awaiting_store:
  "(\<And>x. snd (k x) = st) \<Longrightarrow> snd (awaiting r st k) = st"
  by (cases r) simp_all

lemma storeAppealDeadline_one_rejects:
  "storeAppealDeadline_one K A B tok log account disputes disputeId st = (Rejected TypeError, st)"
  by (simp add: storeAppealDeadline_one_def)

lemma for_each_open_rejects:
  assumes "\<And>disputeId s. f disputeId s = (Rejected err, s)"
  shows "for_each_open f ds st = (if ds = [] then Resolved () else Rejected err, st)"
  by (induction ds arbitrary: st) (simp_all add: assms)

text \<open>
  C6, on the code: the deadline handler never writes. Whatever the ledger, the store
  and the event, the store after \<open>_storeAppealDeadline\<close> is the store before; and in the
  vote period, once the disputes of the user and the open disputes are read and there is
  an open dispute, the handler fails with the TypeError of \<open>_.findIndex\<close>, before the
  deadline is read.
\<close>

theorem deadline_handler_never_writes:
  "snd (storeAppealDeadline K A B tok log account st) = st
   \<and> (getPeriod A = Resolved (PERIOD_VOTE K)
        \<and> getDisputesForUser tok st account = Resolved disputes
        \<and> getOpenDisputesForSession A = Resolved (disputeId # others) \<longrightarrow>
      storeAppealDeadline K A B tok log account st = (Rejected TypeError, st))"
proof -
  note each = for_each_open_rejects
      [where f="storeAppealDeadline_one K A B tok log account ds" and err=TypeError for ds,
       OF storeAppealDeadline_one_rejects]
  have unchanged: "snd (storeAppealDeadline K A B tok log account st) = st"
    unfolding storeAppealDeadline_def
    by (intro awaiting_store) (simp add: each awaiting_store)
  have rejects: "getPeriod A = Resolved (PERIOD_VOTE K)
        \<and> getDisputesForUser tok st account = Resolved disputes
        \<and> getOpenDisputesForSession A = Resolved (disputeId # others) \<longrightarrow>
      storeAppealDeadline K A B tok log account st = (Rejected TypeError, st)"
    by (simp add: storeAppealDeadline_def each)
  show ?thesis by (rule conjI [OF unchanged rejects])
qed

lemma example_tracked: "tracked (Some (JArr [JObj example_dispute_profile])) 5 ''0xK''"
  by (simp add: tracked_def lodash_findIndex_def example_dispute_profile_def)

lemma example_disputes_for_user:
  "getDisputesForUser tok example_store ''0xA'' = Resolved (Some (JArr [JObj example_dispute_profile]))"
  by (simp add: getDisputesForUser_def getDisputes_def getUserProfile_eq profile_json_def
      example_store_def example_dispute_profile_def)

text \<open>
  The ruled-at handler, whose first parameter is named \<open>event\<close>, does what the deadline
  handler misses: for the one open dispute, tracked by the user, it leaves in the store,
  as \<open>appealRuledAt\<close> of the dispute, the array of the merged view with the index
  \<open>numberOfAppeals\<close> set to the block timestamp in milliseconds.
\<close>

lemma ruled_at_handler_writes:
  assumes tok: "truthy tok"
    and period: "getPeriod A = Resolved (PERIOD_APPEAL K)"
    and disputes: "getDisputesForUser tok st account = Resolved disputes"
    and opened: "getOpenDisputesForSession A = Resolved [disputeId]"
    and tracked: "tracked disputes disputeId (getContractAddress A)"
    and block: "getBlock A (ev_blockNumber event) = Resolved ts"
    and view: "getDataForDispute K A B tok st disputeId account = Resolved view"
  shows "stored_array (snd (storeDisputeRuledAtTimestamp K A B tok event account st))
           (getContractAddress A) disputeId ''appealRuledAt''
         = array_set (v_appealRuledAt view) (v_numberOfAppeals view) (JNum (int ts * 1000))"
  by (auto simp: storeDisputeRuledAtTimestamp_def period disputes opened
      storeDisputeRuledAtTimestamp_one_def tracked block view Let_def
      store_updateDispute_eq tok stored_array_def current_dispute_record_def
      split: prod.splits)

lemma ruled_at_handler_fills_round:
  "stored_array
     (snd (storeDisputeRuledAtTimestamp kleros_constants (appeal_period_arbitrator 1)
             example_arbitrable (Some (JStr ''t'')) new_period_event ''0xA'' example_store))
     ''0xK'' 5 ''appealRuledAt'' = [JNull, JNum 1500000]"
proof -
  let ?A = "appeal_period_arbitrator 1"
  have period: "getPeriod ?A = Resolved (PERIOD_APPEAL kleros_constants)"
    and opened: "getOpenDisputesForSession ?A = Resolved [5]"
    and a: "getContractAddress ?A = ''0xK''"
    and block: "getBlock ?A (ev_blockNumber new_period_event) = Resolved 1500"
    by (simp_all add: appeal_period_arbitrator_def round_arbitrator_def example_arbitrator_def
        kleros_constants_def)
  have v: "pbind (getDataForDispute kleros_constants ?A example_arbitrable (Some (JStr ''t''))
             example_store 5 ''0xA'')
             (\<lambda>v. Resolved (v_appealRuledAt v, v_numberOfAppeals v)) = Resolved ([], 1)"
    by (simp add: getDataForDispute_def appeal_period_arbitrator_def round_arbitrator_def
        example_arbitrator_def example_arbitrable_def example_dispute_def
        getContractByAddress_def getUserProfile_eq profile_json_def lodash_filter_def
        kleros_constants_def getDisputeData_def store_getDispute_eq dispute_json_def
        read_store_fields_def same_dispute_def
        appeal_loop.simps appeal_round_def canRule_read_def round_draws_def array_get_def
        example_store_def)
  then obtain view where view: "getDataForDispute kleros_constants ?A example_arbitrable
        (Some (JStr ''t'')) example_store 5 ''0xA'' = Resolved view"
    and f: "v_appealRuledAt view = []" "v_numberOfAppeals view = 1"
    by (cases "getDataForDispute kleros_constants ?A example_arbitrable (Some (JStr ''t''))
                 example_store 5 ''0xA''") auto
  have w: "array_set [] 1 (JNum (int 1500 * 1000)) = [JNull, JNum 1500000]"
    by (simp add: array_set_def)
  have t: "truthy (Some (JStr ''t''))" by simp
  have tr: "tracked (Some (JArr [JObj example_dispute_profile])) 5 (getContractAddress ?A)"
    unfolding a by (rule example_tracked)
  show ?thesis
    using ruled_at_handler_writes [OF t period example_disputes_for_user opened tr block view]
    unfolding a f w .
qed

theorem deadline_handler_never_writes_witness:
  "getPeriod (round_arbitrator 0 100) = Resolved (PERIOD_VOTE kleros_constants)
   \<and> getDisputesForUser (Some (JStr ''t'')) example_store ''0xA''
       = Resolved (Some (JArr [JObj example_dispute_profile]))
   \<and> tracked (Some (JArr [JObj example_dispute_profile])) 5 ''0xK''
   \<and> getOpenDisputesForSession (round_arbitrator 0 100) = Resolved [5]
   \<and> getDeadlineForOpenDispute (round_arbitrator 0 100) = Resolved 100
   \<and> storeAppealDeadline kleros_constants (round_arbitrator 0 100) example_arbitrable
        (Some (JStr ''t'')) new_period_event ''0xA'' example_store
      = (Rejected TypeError, example_store)
   \<and> deliver_new_periods [(0, 100), (1, 200), (2, 300)] example_store = example_store
   \<and> stored_array (deliver_new_periods [(0, 100), (1, 200), (2, 300)] example_store)
        ''0xK'' 5 ''appealDeadlines'' = []
   \<and> stored_array
        (snd (storeDisputeRuledAtTimestamp kleros_constants (appeal_period_arbitrator 1)
                example_arbitrable (Some (JStr ''t'')) new_period_event ''0xA'' example_store))
        ''0xK'' 5 ''appealRuledAt'' = [JNull, JNum 1500000]"
proof -
  let ?tok = "Some (JStr ''t'')"
  have g: "getPeriod (round_arbitrator 0 100) = Resolved (PERIOD_VOTE kleros_constants)"
    and o: "getOpenDisputesForSession (round_arbitrator 0 100) = Resolved [5]"
    and dl: "getDeadlineForOpenDispute (round_arbitrator 0 100) = Resolved 100"
    by (simp_all add: round_arbitrator_def example_arbitrator_def kleros_constants_def)
  note ds = example_disputes_for_user [of ?tok]
  note T = deadline_handler_never_writes [where K=kleros_constants and B=example_arbitrable
      and tok="?tok" and log=new_period_event and account="''0xA''"]
  note R = T [where A="round_arbitrator 0 100" and st=example_store
      and disputes="Some (JArr [JObj example_dispute_profile])" and disputeId=5 and others="[]",
      THEN conjunct2, THEN mp, OF conjI [OF g conjI [OF ds o]]]
  note U = T [THEN conjunct1]
  have all: "deliver_new_periods [(0, 100), (1, 200), (2, 300)] example_store = example_store"
    by (simp add: U)
  have none: "stored_array (deliver_new_periods [(0, 100), (1, 200), (2, 300)] example_store)
        ''0xK'' 5 ''appealDeadlines'' = []"
    unfolding all by (simp add: stored_array_def current_dispute_record_def example_store_def)
  show ?thesis
    by (intro conjI g ds example_tracked o dl R all none ruled_at_handler_fills_round)
qed

section \<open>Properties of the juror draw scanner\<close>







section \<open>Properties of the ordered write queue\<close>

lemma started_append: "started (xs @ ys) = started xs @ started ys"
  by (induction xs rule: started.induct) auto

lemma finished_append: "finished (xs @ ys) = finished xs @ finished ys"
  by (induction xs rule: finished.induct) auto

lemma committed_append: "committed (xs @ ys) = committed xs @ committed ys"
  by (induction xs rule: committed.induct) auto

lemma submitted_append: "submitted (xs @ ys) = submitted xs @ submitted ys"
  by (induction xs rule: submitted.induct) auto

lemmas trace_append = started_append finished_append committed_append submitted_append

lemma upt_snoc: "xs = [0..<length xs] \<Longrightarrow> xs @ [length xs] = [0..<Suc (length xs)]"
  by simp

lemma queue_inv_new: "queue_inv (new_queue st)"
  by (simp add: queue_inv_def new_queue_def read_is_current_def)

lemma queue_inv_submit:
  assumes "queue_inv q"
  shows "queue_inv (submit j q)"
  using assms
  by (auto simp: queue_inv_def submit_def trace_append read_is_current_def
      split: option.splits phase.splits)

lemma waiting_head:
  assumes "map fst w = [a..<n]" and "w = (i, j) # rest"
  shows "i = a \<and> a < n \<and> map fst rest = [Suc a..<n]"
proof -
  from assms have c: "i # map fst rest = [a..<n]" by simp
  have lt: "a < n"
  proof (rule ccontr)
    assume "\<not> a < n"
    then have "[a..<n] = []" by simp
    with c show False by simp
  qed
  then have "[a..<n] = a # [Suc a..<n]" by (simp add: upt_conv_Cons)
  with c lt show ?thesis by simp
qed

lemma sorted_wrt_snoc_less:
  "sorted_wrt (<) xs \<Longrightarrow> list_all (\<lambda>x. x < (i::nat)) xs \<Longrightarrow> sorted_wrt (<) (xs @ [i])"
  by (simp add: sorted_wrt_append list_all_iff)

lemma list_all_less_Suc:
  "list_all (\<lambda>x. x < (i::nat)) xs \<Longrightarrow> list_all (\<lambda>x. x < Suc i) xs"
  by (induction xs) auto

lemma queue_inv_tick:
  assumes I: "queue_inv q"
  shows "queue_inv (tick tok q)"
proof (cases "q_running q")
  case None
  show ?thesis
  proof (cases "q_waiting q")
    case Nil
    with None have "tick tok q = q" by (simp add: tick_def)
    with I show ?thesis by simp
  next
    case (Cons w rest)
    obtain i j where w: "w = (i, j)" by (cases w)
    from I have m: "map fst (q_waiting q) = [length (started (q_trace q))..<q_next q]"
      by (simp add: queue_inv_def)
    from waiting_head [OF m] Cons w
    have h: "i = length (started (q_trace q))" "length (started (q_trace q)) < q_next q"
      "map fst rest = [Suc (length (started (q_trace q)))..<q_next q]" by simp_all
    have t: "tick tok q = q\<lparr>q_running := Some (i, j, Reading), q_waiting := rest,
                 q_trace := q_trace q @ [Started i]\<rparr>"
      using None Cons w by (simp add: tick_def)
    from I None h show ?thesis
      unfolding t
      by (auto simp: queue_inv_def trace_append read_is_current_def)
  qed
next
  case (Some r)
  obtain i j ph where r: "r = (i, j, ph)" by (cases r)
  from I Some r have c: "length (started (q_trace q)) = Suc i" "length (finished (q_trace q)) = i"
    by (simp_all add: queue_inv_def)
  from I have base: "started (q_trace q) = [0..<length (started (q_trace q))]"
    "finished (q_trace q) = [0..<length (finished (q_trace q))]"
    "submitted (q_trace q) = [0..<q_next q]"
    "map fst (q_waiting q) = [length (started (q_trace q))..<q_next q]"
    "length (started (q_trace q)) \<le> q_next q"
    "sorted_wrt (<) (committed (q_trace q))"
    "list_all (\<lambda>i. i < length (finished (q_trace q))) (committed (q_trace q))"
    by (simp_all add: queue_inv_def)
  have fin: "finished (q_trace q) @ [i] = [0..<Suc i]"
    using base(2) c(2) by (metis upt_snoc)
  have srt: "sorted_wrt (<) (committed (q_trace q) @ [i])"
    using base(6,7) c(2) by (simp add: sorted_wrt_snoc_less)
  have all: "list_all (\<lambda>x. x < Suc i) (committed (q_trace q))"
    using base(7) c(2) by (simp add: list_all_less_Suc)
  show ?thesis
  proof (cases ph)
    case Hung
    with Some r have "tick tok q = q" by (simp add: tick_def)
    with I show ?thesis by simp
  next
    case Reading
    show ?thesis
    proof (cases "job_getBodyFn j (q_store q)")
      case (Resolved b)
      then have t: "tick tok q = q\<lparr>q_running := Some (i, j, Writing b),
                      q_trace := q_trace q @ [BodyRead i]\<rparr>"
        using Some r Reading by (simp add: tick_def)
      from base c Resolved show ?thesis
        unfolding t by (simp add: queue_inv_def trace_append read_is_current_def)
    next
      case (Rejected e)
      then have t: "tick tok q = q\<lparr>q_running := None, q_trace := q_trace q @ [Failed i]\<rparr>"
        using Some r Reading by (simp add: tick_def)
      from base c fin all show ?thesis
        unfolding t by (simp add: queue_inv_def trace_append read_is_current_def)
    next
      case Pending
      then have t: "tick tok q = q\<lparr>q_running := Some (i, j, Hung)\<rparr>"
        using Some r Reading by (simp add: tick_def)
      from base c show ?thesis
        unfolding t by (simp add: queue_inv_def read_is_current_def)
    qed
  next
    case (Writing b)
    obtain res st' where m: "makeRequest tok (job_verb j) (job_uri j) (Some b) store_service
        (q_store q) = (res, st')" by (cases "makeRequest tok (job_verb j) (job_uri j) (Some b)
        store_service (q_store q)")
    show ?thesis
    proof (cases res)
      case (Resolved x)
      then have t: "tick tok q = q\<lparr>q_store := st', q_running := None,
                      q_trace := q_trace q @ [Committed i]\<rparr>"
        using Some r Writing m by (simp add: tick_def)
      from base c fin srt all show ?thesis
        unfolding t by (simp add: queue_inv_def trace_append read_is_current_def)
    next
      case (Rejected e)
      then have t: "tick tok q = q\<lparr>q_store := st', q_running := None,
                      q_trace := q_trace q @ [Failed i]\<rparr>"
        using Some r Writing m by (simp add: tick_def)
      from base c fin all show ?thesis
        unfolding t by (simp add: queue_inv_def trace_append read_is_current_def)
    next
      case Pending
      then have t: "tick tok q = q\<lparr>q_store := st', q_running := Some (i, j, Hung)\<rparr>"
        using Some r Writing m by (simp add: tick_def)
      from base c show ?thesis
        unfolding t by (simp add: queue_inv_def read_is_current_def)
    qed
  qed
qed

lemma queue_inv_run: "queue_inv q \<Longrightarrow> queue_inv (run tok schedule q)"
proof (induction schedule arbitrary: q)
  case Nil
  then show ?case by simp
next
  case (Cons a as)
  have "queue_inv (act tok a q)"
    using Cons.prems by (cases a) (simp_all add: queue_inv_submit queue_inv_tick)
  from Cons.IH [OF this] show ?case by simp
qed

lemma lone_job:
  "q_store (run tok [Submit (write_job getBodyFn verb uri), Tick, Tick, Tick] (new_queue st))
     = snd (queueWriteRequest getBodyFn verb uri tok st)"
proof (cases "getBodyFn st")
  case (Resolved b)
  obtain res st' where m: "makeRequest tok verb uri (Some b) store_service st = (res, st')"
    by (cases "makeRequest tok verb uri (Some b) store_service st")
  with Resolved show ?thesis
    by (cases res)
       (simp_all add: new_queue_def submit_def tick_def write_job_def queueWriteRequest_def)
next
  case (Rejected e)
  then show ?thesis
    by (simp add: new_queue_def submit_def tick_def write_job_def queueWriteRequest_def)
next
  case Pending
  then show ?thesis
    by (simp add: new_queue_def submit_def tick_def write_job_def queueWriteRequest_def)
qed

text \<open>
  C2: after every schedule of submissions and ticks, from a new queue on any store: at
  most one job has started and not finished; tickets are given in the order of
  submission, and jobs start and finish in the order of their tickets, so the requests
  that are committed are committed in the order of submission; and the body a job is
  about to send is the body its read phase gives on the store as it is now, so no
  write has come between its read and its request.
\<close>

theorem queue_serializes:
  "(let q = run tok schedule (new_queue st); tr = q_trace q
    in length (started tr) \<le> length (finished tr) + 1
       \<and> submitted tr = [0..<q_next q]
       \<and> started tr = [0..<length (started tr)]
       \<and> finished tr = [0..<length (finished tr)]
       \<and> sorted_wrt (<) (committed tr)
       \<and> read_is_current q)"
proof -
  have I: "queue_inv (run tok schedule (new_queue st))"
    by (rule queue_inv_run [OF queue_inv_new])
  then have "length (started (q_trace (run tok schedule (new_queue st))))
      \<le> length (finished (q_trace (run tok schedule (new_queue st)))) + 1"
    by (cases "q_running (run tok schedule (new_queue st))") (auto simp: queue_inv_def)
  with I show ?thesis
    by (simp add: queue_inv_def Let_def)
qed

lemma example_schedule_trace:
  "q_trace (run (Some (JStr ''t'')) example_schedule (new_queue example_store))
     = [Submitted 0, Started 0, BodyRead 0, Submitted 1, Committed 0, Started 1, BodyRead 1,
        Committed 1]"
  by (simp add: example_schedule_def new_queue_def submit_def tick_def write_job_def
      updateUserProfile_body POST_profile)

lemma example_schedule_store:
  "current_user_profile
     (q_store (run (Some (JStr ''t'')) example_schedule (new_queue example_store))) ''0xA''
     ''lastBlock'' = Some (JNum 9)
   \<and> current_user_profile
     (q_store (run (Some (JStr ''t'')) example_schedule (new_queue example_store))) ''0xA''
     ''session'' = Some (JNum 4)"
  by (simp add: example_schedule_def new_queue_def submit_def tick_def write_job_def
      updateUserProfile_body POST_profile current_user_profile_def map_add_def)

theorem queue_serializes_witness:
  "q_trace (run (Some (JStr ''t'')) example_schedule (new_queue example_store))
     = [Submitted 0, Started 0, BodyRead 0, Submitted 1, Committed 0, Started 1, BodyRead 1,
        Committed 1]
   \<and> committed (q_trace (run (Some (JStr ''t'')) example_schedule (new_queue example_store)))
       = [0, 1]
   \<and> sorted_wrt (<)
        (committed (q_trace (run (Some (JStr ''t'')) example_schedule (new_queue example_store))))
   \<and> read_is_current (run (Some (JStr ''t'')) example_schedule (new_queue example_store))
   \<and> current_user_profile
        (q_store (run (Some (JStr ''t'')) example_schedule (new_queue example_store))) ''0xA''
        ''lastBlock'' = Some (JNum 9)
   \<and> current_user_profile
        (q_store (run (Some (JStr ''t'')) example_schedule (new_queue example_store))) ''0xA''
        ''session'' = Some (JNum 4)"
proof -
  note T = queue_serializes [of "Some (JStr ''t'')" example_schedule example_store,
      unfolded Let_def]
  have c: "committed (q_trace (run (Some (JStr ''t'')) example_schedule
             (new_queue example_store))) = [0, 1]"
    by (simp add: example_schedule_trace)
  from T have s: "sorted_wrt (<)
        (committed (q_trace (run (Some (JStr ''t'')) example_schedule (new_queue example_store))))"
    and r: "read_is_current (run (Some (JStr ''t'')) example_schedule (new_queue example_store))"
    by simp_all
  show ?thesis
    by (intro conjI example_schedule_trace c s r example_schedule_store [THEN conjunct1]
        example_schedule_store [THEN conjunct2])
qed

end
